theory Spec2Isabelle
  imports Main "HOL-Library.Sublist" "HOL-Library.Char_ord" "HOL-Library.List_Lexorder"
begin

section \<open>The Home Assistant language server (ha-lsp-server/server.js)\<close>

text \<open>
  A shallow embedding of the parts of \<^verbatim>\<open>server.js\<close> that the specification talks about:
  the TTL cache of \<^verbatim>\<open>HomeAssistantClient\<close>, the \<^verbatim>\<open>YamlContextAnalyzer\<close>, the completion,
  hover and diagnostics providers.

  Conventions. A JavaScript string is a \<^typ>\<open>string\<close>; every \<^typ>\<open>char\<close> stands for one
  code unit below 256. Clock readings (\<^verbatim>\<open>Date.now()\<close>) are integers, in milliseconds.
  A thrown exception is the \<open>Inl\<close> branch of a sum. An awaited call is modelled by its
  outcome; calls do not interleave.
\<close>

subsection \<open>Values and errors\<close>

datatype js_error = Error string | TypeError

text \<open>The value \<^verbatim>\<open>undefined\<close> next to the values a query can produce.\<close>

datatype 'a jsval = Undefined | Val 'a

subsection \<open>HomeAssistantClient: the cache\<close>

definition CACHE_TTL :: int where
  "CACHE_TTL = 60000"

record 'a client =
  cache :: "string \<rightharpoonup> 'a jsval"
  cacheTimestamps :: "string \<rightharpoonup> int"

text \<open>\<^verbatim>\<open>Map.prototype.get\<close>: a missing key reads as \<^verbatim>\<open>undefined\<close>.\<close>

definition mapGet :: "(string \<rightharpoonup> 'a jsval) \<Rightarrow> string \<Rightarrow> 'a jsval" where
  "mapGet m k = (case m k of None \<Rightarrow> Undefined | Some v \<Rightarrow> v)"

text \<open>
  \<^verbatim>\<open>isCacheValid(key) { const timestamp = this.cacheTimestamps.get(key);
     return timestamp && (Date.now() - timestamp) < CACHE_TTL; }\<close>
  The conjunction is falsy for a missing timestamp and for the number 0.
\<close>

definition isCacheValid :: "'a client \<Rightarrow> string \<Rightarrow> int \<Rightarrow> bool" where
  "isCacheValid c key now =
     (case cacheTimestamps c key of
        None \<Rightarrow> False
      | Some timestamp \<Rightarrow> timestamp \<noteq> 0 \<and> now - timestamp < CACHE_TTL)"

text \<open>
  A fetcher is a query without arguments. Awaiting it either throws or yields data; the
  second component is the clock reading when it has settled, which
  \<^verbatim>\<open>this.cacheTimestamps.set(key, Date.now())\<close> stores.
\<close>

type_synonym 'a fetcher = "unit \<Rightarrow> (js_error + 'a jsval) \<times> int"

record 'a get_result =
  returned :: "js_error + 'a jsval"
  client_after :: "'a client"
  fetcher_calls :: nat

definition getCached :: "'a client \<Rightarrow> string \<Rightarrow> 'a fetcher \<Rightarrow> int \<Rightarrow> 'a get_result" where
  "getCached c key fetcher now =
     (if isCacheValid c key now
      then \<lparr>returned = Inr (mapGet (cache c) key), client_after = c, fetcher_calls = 0\<rparr>
      else (case fetcher () of
              (Inr data, t) \<Rightarrow>
                \<lparr>returned = Inr data,
                 client_after = c\<lparr>cache := (cache c)(key \<mapsto> data),
                                  cacheTimestamps := (cacheTimestamps c)(key \<mapsto> t)\<rparr>,
                 fetcher_calls = 1\<rparr>
            | (Inl error, t) \<Rightarrow>
                \<lparr>returned = (if cache c key \<noteq> None then Inr (mapGet (cache c) key)
                             else Inl error),
                 client_after = c, fetcher_calls = 1\<rparr>))"

definition invalidateCache :: "'a client \<Rightarrow> 'a client" where
  "invalidateCache c = c\<lparr>cache := Map.empty, cacheTimestamps := Map.empty\<rparr>"

subsection \<open>Strings\<close>

text \<open>Character classes of the regular expressions. Under the flag \<^verbatim>\<open>i\<close> a class of
  ASCII letters matches both cases and no other code unit.\<close>

definition inRange :: "char \<Rightarrow> char \<Rightarrow> char \<Rightarrow> bool" where
  "inRange lo hi c = ((of_char lo :: nat) \<le> of_char c \<and> (of_char c :: nat) \<le> of_char hi)"

text \<open>\<^verbatim>\<open>\s\<close>: tab, line feed, vertical tab, form feed, carriage return, space, no-break space.\<close>

definition isSpace :: "char \<Rightarrow> bool" where
  "isSpace c = (c \<in> set [CHR 0x09, CHR 0x0A, CHR 0x0B, CHR 0x0C, CHR 0x0D, CHR '' '', CHR 0xA0])"

definition isLetter :: "char \<Rightarrow> bool" where
  "isLetter c = (inRange CHR ''a'' CHR ''z'' c \<or> inRange CHR ''A'' CHR ''Z'' c)"

definition isDigit :: "char \<Rightarrow> bool" where
  "isDigit c = inRange CHR ''0'' CHR ''9'' c"

text \<open>\<^verbatim>\<open>[a-z_]\<close> under \<^verbatim>\<open>i\<close>.\<close>

definition isLetterUnderscore :: "char \<Rightarrow> bool" where
  "isLetterUnderscore c = (isLetter c \<or> c = CHR ''_'')"

text \<open>\<^verbatim>\<open>\w\<close>, which is also \<^verbatim>\<open>[a-z0-9_]\<close> under \<^verbatim>\<open>i\<close>.\<close>

definition isWordChar :: "char \<Rightarrow> bool" where
  "isWordChar c = (isLetter c \<or> isDigit c \<or> c = CHR ''_'')"

text \<open>\<^verbatim>\<open>String.prototype.toLowerCase\<close> on code units below 256: A to Z, and the
  Latin-1 capitals 0xC0 to 0xDE without the multiplication sign 0xD7.\<close>

definition lowerChar :: "char \<Rightarrow> char" where
  "lowerChar c =
     (if inRange CHR ''A'' CHR ''Z'' c
         \<or> (inRange CHR 0xC0 CHR 0xDE c \<and> c \<noteq> CHR 0xD7)
      then char_of (of_char c + (32::nat)) else c)"


text \<open>\<^verbatim>\<open>s.split(d)\<close> for a separator of one character.\<close>

fun splitOn :: "char \<Rightarrow> string \<Rightarrow> string list" where
  "splitOn d [] = [[]]"
| "splitOn d (c # cs) =
     (if c = d then [] # splitOn d cs
      else (case splitOn d cs of [] \<Rightarrow> [[c]] | l # ls \<Rightarrow> (c # l) # ls))"

text \<open>\<^verbatim>\<open>s.indexOf(pat)\<close> and \<^verbatim>\<open>s.lastIndexOf(pat)\<close>: \<open>-1\<close> when \<open>pat\<close> does not occur.\<close>

fun indexOfFrom :: "string \<Rightarrow> string \<Rightarrow> int \<Rightarrow> int" where
  "indexOfFrom pat [] i = (if pat = [] then i else -1)"
| "indexOfFrom pat (c # cs) i =
     (if prefix pat (c # cs) then i else indexOfFrom pat cs (i + 1))"

definition indexOf :: "string \<Rightarrow> string \<Rightarrow> int" where
  "indexOf s pat = indexOfFrom pat s 0"

fun lastIndexOfFrom :: "string \<Rightarrow> string \<Rightarrow> int \<Rightarrow> int \<Rightarrow> int" where
  "lastIndexOfFrom pat [] i found = (if pat = [] then i else found)"
| "lastIndexOfFrom pat (c # cs) i found =
     lastIndexOfFrom pat cs (i + 1) (if prefix pat (c # cs) then i else found)"

definition lastIndexOf :: "string \<Rightarrow> string \<Rightarrow> int" where
  "lastIndexOf s pat = lastIndexOfFrom pat s 0 (-1)"


definition startsWith :: "string \<Rightarrow> string \<Rightarrow> bool" where
  "startsWith s pat = prefix pat s"

definition trim :: "string \<Rightarrow> string" where
  "trim s = rev (dropWhile isSpace (rev (dropWhile isSpace s)))"

text \<open>\<^verbatim>\<open>s.substring(a, b)\<close> for non-negative arguments: they are clamped to the length
  and swapped when \<open>a > b\<close>.\<close>

definition substring :: "string \<Rightarrow> nat \<Rightarrow> nat \<Rightarrow> string" where
  "substring s a b = take (max a b - min a b) (drop (min a b) s)"

subsection \<open>Regular expressions\<close>

text \<open>
  A pattern is a backtracking matcher: applied to the rest of the input it lists every
  way to match, as (matched text, input left), in the order in which the engine tries
  them. The match that \<^verbatim>\<open>exec\<close> and \<^verbatim>\<open>match\<close> report is the first way in which the whole
  pattern succeeds. A greedy repetition tries one more iteration before it tries to
  stop, and an iteration that consumes nothing is rejected.
\<close>

type_synonym matcher = "string \<Rightarrow> (string \<times> string) list"

definition cls :: "(char \<Rightarrow> bool) \<Rightarrow> matcher" where
  "cls p s = (case s of [] \<Rightarrow> [] | c # r \<Rightarrow> if p c then [([c], r)] else [])"

definition sq :: "matcher \<Rightarrow> matcher \<Rightarrow> matcher" where
  "sq a b s = [(x @ y, r'). (x, r) \<leftarrow> a s, (y, r') \<leftarrow> b r]"

definition alt :: "matcher \<Rightarrow> matcher \<Rightarrow> matcher" where
  "alt a b s = a s @ b s"

fun lit :: "string \<Rightarrow> matcher" where
  "lit [] = (\<lambda>s. [([], s)])"
| "lit (c # cs) = sq (cls (\<lambda>x. x = c)) (lit cs)"

text \<open>A literal under the flag \<^verbatim>\<open>i\<close>.\<close>

fun litCI :: "string \<Rightarrow> matcher" where
  "litCI [] = (\<lambda>s. [([], s)])"
| "litCI (c # cs) = sq (cls (\<lambda>x. lowerChar x = lowerChar c)) (litCI cs)"

primrec starN :: "nat \<Rightarrow> matcher \<Rightarrow> matcher" where
  "starN 0 a s = [([], s)]"
| "starN (Suc n) a s =
     concat (map (\<lambda>(x, r). if length r < length s
                              then map (\<lambda>(y, r'). (x @ y, r')) (starN n a r) else []) (a s))
     @ [([], s)]"

text \<open>\<^verbatim>\<open>a*\<close>: every iteration consumes a character, so \<open>length s\<close> iterations are all
  there can be.\<close>

definition star :: "matcher \<Rightarrow> matcher" where
  "star a s = starN (length s) a s"

text \<open>\<^verbatim>\<open>a+\<close>\<close>

definition plus1 :: "matcher \<Rightarrow> matcher" where
  "plus1 a = sq a (star a)"

text \<open>\<^verbatim>\<open>$\<close> without the flag \<^verbatim>\<open>m\<close>: the end of the input.\<close>

definition eol :: matcher where
  "eol s = (if s = [] then [([], s)] else [])"

definition first :: "'a list \<Rightarrow> 'a option" where
  "first xs = (case xs of [] \<Rightarrow> None | x # _ \<Rightarrow> Some x)"

text \<open>A pattern without \<^verbatim>\<open>^\<close> is tried at every start index from the left; the result is
  the index of the match and what the pattern yields there.\<close>

fun searchFrom :: "(string \<Rightarrow> 'a list) \<Rightarrow> string \<Rightarrow> nat \<Rightarrow> (nat \<times> 'a) option" where
  "searchFrom m [] i = map_option (Pair i) (first (m []))"
| "searchFrom m (c # cs) i =
     (case first (m (c # cs)) of
        Some r \<Rightarrow> Some (i, r)
      | None \<Rightarrow> searchFrom m cs (Suc i))"

text \<open>
  The loop \<^verbatim>\<open>while ((match = pattern.exec(text)) !== null)\<close> of a pattern with the flag
  \<^verbatim>\<open>g\<close>: every match, as (index, what the pattern yields), each search starting where the
  match before ended. The pattern yields the matched text first; \<open>skip\<close> counts the
  characters of the last match still to pass. All patterns of the server match at least
  one character.
\<close>

fun execAll :: "(string \<Rightarrow> (string \<times> 'a) list) \<Rightarrow> string \<Rightarrow> nat \<Rightarrow> nat
    \<Rightarrow> (nat \<times> string \<times> 'a) list" where
  "execAll m [] i skip = []"
| "execAll m (c # cs) i (Suc k) = execAll m cs (Suc i) k"
| "execAll m (c # cs) i 0 =
     (case first (m (c # cs)) of
        Some (m0, g) \<Rightarrow> (i, m0, g) # execAll m cs (Suc i) (length m0 - 1)
      | None \<Rightarrow> execAll m cs (Suc i) 0)"

subsection \<open>Documents\<close>

record position =
  line :: nat
  character :: nat

record text_range =
  start :: position
  end' :: position

text \<open>
  A \<^verbatim>\<open>TextDocument\<close>. Its offset index (\<^verbatim>\<open>offsetAt\<close>, \<^verbatim>\<open>positionAt\<close>) belongs to the
  text-document library and is a parameter here.
\<close>

record document =
  uri :: string
  getText :: string
  offsetAt :: "position \<Rightarrow> nat"
  positionAt :: "int \<Rightarrow> position"

subsection \<open>YamlContextAnalyzer.analyzeContext\<close>

record doc_context =
  ctx_line :: string
  lineBeforeCursor :: string
  offset :: nat
  ctx_position :: position
  inKey :: bool
  inValue :: bool
  key :: "string option"
  parentKey :: "string option"
  parentKeys :: "string list"
  inList :: bool
  inJinja :: bool
  triggerType :: "string option"
  actionType :: "string option"
  domain :: "string option"

text \<open>\<^verbatim>\<open>s.match(/^(\s*)/)?.[1].length || 0\<close>\<close>

definition indentOf :: "string \<Rightarrow> nat" where
  "indentOf s = (case first (star (cls isSpace) s) of Some (m, r) \<Rightarrow> length m | None \<Rightarrow> 0)"

text \<open>\<^verbatim>\<open>prevLine.match(/^(\s*)([a-z_]+)\s*:/i)\<close>: the groups 1 and 2.\<close>

definition keyMatch :: "string \<Rightarrow> (string \<times> string) option" where
  "keyMatch s =
     first [(g1, g2). (g1, r1) \<leftarrow> star (cls isSpace) s,
                      (g2, r2) \<leftarrow> plus1 (cls isLetterUnderscore) r1,
                      (w, r3) \<leftarrow> star (cls isSpace) r2,
                      (c, r4) \<leftarrow> lit '':'' r3]"

text \<open>\<^verbatim>\<open>lines[i].match(/platform:\s*(\w+)/)\<close>: group 1.\<close>

definition platformMatch :: "string \<Rightarrow> string option" where
  "platformMatch s =
     map_option snd (searchFrom (\<lambda>t.
        [g1. (l, r1) \<leftarrow> lit ''platform:'' t,
             (w, r2) \<leftarrow> star (cls isSpace) r1,
             (g1, r3) \<leftarrow> plus1 (cls isWordChar) r2]) s 0)"

text \<open>\<^verbatim>\<open>lines[i].match(/service:\s*([\w.]+)/)\<close>: group 1.\<close>

definition serviceMatch :: "string \<Rightarrow> string option" where
  "serviceMatch s =
     map_option snd (searchFrom (\<lambda>t.
        [g1. (l, r1) \<leftarrow> lit ''service:'' t,
             (w, r2) \<leftarrow> star (cls isSpace) r1,
             (g1, r3) \<leftarrow> plus1 (cls (\<lambda>c. isWordChar c \<or> c = CHR ''.'')) r2]) s 0)"

text \<open>\<^verbatim>\<open>s.replace(/^-\s*/, "")\<close>\<close>

definition stripDash :: "string \<Rightarrow> string" where
  "stripDash s =
     (case first [r2. (d, r1) \<leftarrow> lit ''-'' s, (w, r2) \<leftarrow> star (cls isSpace) r1] of
        Some r \<Rightarrow> r | None \<Rightarrow> s)"

text \<open>\<^verbatim>\<open>lineBeforeCursor.match(/^\s*-\s*/)\<close>\<close>

definition listItemMatch :: "string \<Rightarrow> bool" where
  "listItemMatch s =
     (sq (star (cls isSpace)) (sq (lit ''-'') (star (cls isSpace))) s \<noteq> [])"

text \<open>
  The loop \<^verbatim>\<open>for (let i = position.line - 1; i >= 0; i--)\<close> over the lines above the
  cursor; the first argument after the indent is \<open>i + 1\<close>. Reading \<^verbatim>\<open>lines[i]\<close> past
  the end gives \<^verbatim>\<open>undefined\<close>, and \<^verbatim>\<open>undefined.match\<close> throws a TypeError. The statement
  \<^verbatim>\<open>currentIndent === prevIndent;\<close> in the body compares and assigns nothing, so
  \<open>currentIndent\<close> stays the indent of the text before the cursor. The state is
  (\<^verbatim>\<open>parentKeys\<close>, \<^verbatim>\<open>parentKey\<close>).
\<close>

fun parentLoop :: "string list \<Rightarrow> nat \<Rightarrow> nat \<Rightarrow> string list \<times> string option
    \<Rightarrow> js_error + string list \<times> string option" where
  "parentLoop lines currentIndent 0 st = Inr st"
| "parentLoop lines currentIndent (Suc i) (parentKeys', parentKey') =
     (if i < length lines
      then (let prevLine = lines ! i;
                prevIndent = indentOf prevLine
            in case keyMatch prevLine of
                 Some (g1, key') \<Rightarrow>
                   if prevIndent < currentIndent
                   then parentLoop lines currentIndent i
                          (key' # parentKeys',
                           (case parentKey' of None \<Rightarrow> Some key' | Some k \<Rightarrow> Some k))
                   else parentLoop lines currentIndent i (parentKeys', parentKey')
               | None \<Rightarrow> parentLoop lines currentIndent i (parentKeys', parentKey'))
      else Inl TypeError)"

text \<open>The loops \<^verbatim>\<open>for (let i = position.line; i >= 0; i--)\<close> that look for the trigger
  platform and for the service; the second argument is \<open>i + 1\<close>.\<close>

fun triggerLoop :: "string list \<Rightarrow> nat \<Rightarrow> js_error + string option" where
  "triggerLoop lines 0 = Inr None"
| "triggerLoop lines (Suc i) =
     (if i < length lines
      then (case platformMatch (lines ! i) of
              Some g1 \<Rightarrow> Inr (Some g1)
            | None \<Rightarrow> triggerLoop lines i)
      else Inl TypeError)"

fun domainLoop :: "string list \<Rightarrow> nat \<Rightarrow> js_error + string option" where
  "domainLoop lines 0 = Inr None"
| "domainLoop lines (Suc i) =
     (if i < length lines
      then (case serviceMatch (lines ! i) of
              Some g1 \<Rightarrow> Inr (first (splitOn CHR ''.'' g1))
            | None \<Rightarrow> domainLoop lines i)
      else Inl TypeError)"

definition analyzeContext :: "document \<Rightarrow> position \<Rightarrow> js_error + doc_context" where
  "analyzeContext document pos =
     (let text = getText document;
          lines = splitOn CHR 0x0A text;
          line' = (if line pos < length lines then lines ! (line pos) else []);
          lineBeforeCursor' = take (character pos) line';
          jinjaStart = lastIndexOf lineBeforeCursor' ''{{'';
          jinjaEnd = lastIndexOf lineBeforeCursor' ''}}'';
          colonIndex = indexOf lineBeforeCursor' '':'';
          currentIndent = indentOf lineBeforeCursor'
      in case parentLoop lines currentIndent (line pos) ([], None) of
           Inl e \<Rightarrow> Inl e
         | Inr (parentKeys', parentKey') \<Rightarrow>
       (case (if ''trigger'' \<in> set parentKeys' \<or> ''triggers'' \<in> set parentKeys'
              then triggerLoop lines (Suc (line pos)) else Inr None) of
           Inl e \<Rightarrow> Inl e
         | Inr triggerType' \<Rightarrow>
       (case (if ''action'' \<in> set parentKeys' \<or> ''actions'' \<in> set parentKeys'
              then domainLoop lines (Suc (line pos)) else Inr None) of
           Inl e \<Rightarrow> Inl e
         | Inr domain' \<Rightarrow>
           Inr \<lparr>ctx_line = line',
                lineBeforeCursor = lineBeforeCursor',
                offset = offsetAt document pos,
                ctx_position = pos,
                inKey = (colonIndex = -1),
                inValue = (colonIndex \<noteq> -1),
                key = (if colonIndex = -1 then None
                       else Some (stripDash (trim (take (nat colonIndex) lineBeforeCursor')))),
                parentKey = parentKey',
                parentKeys = parentKeys',
                inList = listItemMatch lineBeforeCursor',
                inJinja = (jinjaStart > jinjaEnd),
                triggerType = triggerType',
                actionType = None,
                domain = domain'\<rparr>)))"

text \<open>A line and column index for documents whose only line break is the line feed, to put
  for the library's index in the examples.\<close>

fun positionAtLF :: "string \<Rightarrow> nat \<Rightarrow> position \<Rightarrow> position" where
  "positionAtLF [] n p = p"
| "positionAtLF (c # cs) 0 p = p"
| "positionAtLF (c # cs) (Suc n) p =
     positionAtLF cs n (if c = CHR 0x0A then \<lparr>line = Suc (line p), character = 0\<rparr>
                        else p\<lparr>character := Suc (character p)\<rparr>)"

fun offsetAtLF :: "string list \<Rightarrow> position \<Rightarrow> nat" where
  "offsetAtLF [] p = 0"
| "offsetAtLF [l] p = (if line p = 0 then min (character p) (length l) else length l)"
| "offsetAtLF (l # l' # ls) p =
     (case line p of
        0 \<Rightarrow> min (character p) (length l)
      | Suc n \<Rightarrow> length l + 1 + offsetAtLF (l' # ls) (p\<lparr>line := n\<rparr>))"

definition textDocument :: "string \<Rightarrow> string \<Rightarrow> document" where
  "textDocument u text =
     \<lparr>uri = u, getText = text,
      offsetAt = offsetAtLF (splitOn CHR 0x0A text),
      positionAt = (\<lambda>off. positionAtLF text (nat off) \<lparr>line = 0, character = 0\<rparr>)\<rparr>"

subsection \<open>Reference extraction\<close>

record entity_ref =
  entityId :: string
  ref_range :: text_range
  ref_inJinja :: bool

record service_ref =
  service :: string
  sref_range :: text_range

record include_ref =
  path :: string
  iref_range :: text_range

text \<open>\<^verbatim>\<open>[a-z_]+\.[a-z0-9_]+\<close> under \<^verbatim>\<open>i\<close>\<close>

definition entityIdPattern :: matcher where
  "entityIdPattern =
     sq (plus1 (cls isLetterUnderscore)) (sq (lit ''.'') (plus1 (cls isWordChar)))"

definition isQuote :: "char \<Rightarrow> bool" where
  "isQuote c = (c = CHR 0x27 \<or> c = CHR 0x22)"

text \<open>The range from \<open>startOffset\<close> to \<open>endOffset\<close>, through \<^verbatim>\<open>document.positionAt\<close>.\<close>

definition rangeOf :: "document \<Rightarrow> int \<Rightarrow> int \<Rightarrow> text_range" where
  "rangeOf document startOffset endOffset =
     \<lparr>start = positionAt document startOffset, end' = positionAt document endOffset\<rparr>"

text \<open>The patterns yield \<^verbatim>\<open>match[0]\<close> and \<^verbatim>\<open>match[1]\<close>.

  \<^verbatim>\<open>/entity_id:\s*([a-z_]+\.[a-z0-9_]+)/gi\<close>\<close>

definition entityIdValuePattern :: "string \<Rightarrow> (string \<times> string) list" where
  "entityIdValuePattern t =
     [(l @ w @ g1, g1). (l, r1) \<leftarrow> litCI ''entity_id:'' t,
                        (w, r2) \<leftarrow> star (cls isSpace) r1,
                        (g1, r3) \<leftarrow> entityIdPattern r2]"

text \<open>\<^verbatim>\<open>/entity_id:\s*\n(\s+-\s+[a-z_]+\.[a-z0-9_]+\s*)+/gi\<close>; only \<^verbatim>\<open>match[0]\<close> is used.\<close>

definition listEntityPattern :: "string \<Rightarrow> (string \<times> unit) list" where
  "listEntityPattern t =
     [(l @ w @ n @ items, ()).
        (l, r1) \<leftarrow> litCI ''entity_id:'' t,
        (w, r2) \<leftarrow> star (cls isSpace) r1,
        (n, r3) \<leftarrow> lit [CHR 0x0A] r2,
        (items, r4) \<leftarrow>
           plus1 (sq (plus1 (cls isSpace))
                 (sq (lit ''-'')
                 (sq (plus1 (cls isSpace))
                 (sq entityIdPattern (star (cls isSpace)))))) r3]"

text \<open>\<^verbatim>\<open>/-\s+([a-z_]+\.[a-z0-9_]+)/gi\<close>\<close>

definition itemPattern :: "string \<Rightarrow> (string \<times> string) list" where
  "itemPattern t =
     [(d @ w @ g1, g1). (d, r1) \<leftarrow> lit ''-'' t,
                        (w, r2) \<leftarrow> plus1 (cls isSpace) r1,
                        (g1, r3) \<leftarrow> entityIdPattern r2]"

text \<open>\<^verbatim>\<open>/states\(['"]([a-z_]+\.[a-z0-9_]+)['"]\)/gi\<close>\<close>

definition statesPattern :: "string \<Rightarrow> (string \<times> string) list" where
  "statesPattern t =
     [(l @ q @ g1 @ q' @ c, g1). (l, r1) \<leftarrow> litCI ''states('' t,
                                 (q, r2) \<leftarrow> cls isQuote r1,
                                 (g1, r3) \<leftarrow> entityIdPattern r2,
                                 (q', r4) \<leftarrow> cls isQuote r3,
                                 (c, r5) \<leftarrow> lit '')'' r4]"

text \<open>\<^verbatim>\<open>/is_state\(['"]([a-z_]+\.[a-z0-9_]+)['"]/gi\<close>\<close>

definition isStatePattern :: "string \<Rightarrow> (string \<times> string) list" where
  "isStatePattern t =
     [(l @ q @ g1 @ q', g1). (l, r1) \<leftarrow> litCI ''is_state('' t,
                             (q, r2) \<leftarrow> cls isQuote r1,
                             (g1, r3) \<leftarrow> entityIdPattern r2,
                             (q', r4) \<leftarrow> cls isQuote r3]"

text \<open>One reference of a scan: \<^verbatim>\<open>startOffset = match.index + match[0].indexOf(match[1])\<close>.\<close>

definition entityRefOf :: "document \<Rightarrow> bool \<Rightarrow> nat \<times> string \<times> string \<Rightarrow> entity_ref" where
  "entityRefOf document jinja m =
     (case m of (index, m0, g1) \<Rightarrow>
        (let startOffset = int index + indexOf m0 g1
         in \<lparr>entityId = g1,
             ref_range = rangeOf document startOffset (startOffset + int (length g1)),
             ref_inJinja = jinja\<rparr>))"

text \<open>The items of one list match: \<^verbatim>\<open>absoluteOffset = match.index + itemMatch.index +
  itemMatch[0].indexOf(itemMatch[1])\<close>.\<close>

definition listItemRefs :: "document \<Rightarrow> nat \<times> string \<times> unit \<Rightarrow> entity_ref list" where
  "listItemRefs document m =
     (case m of (index, listContent, u) \<Rightarrow>
        map (\<lambda>(itemIndex, i0, i1).
               (let absoluteOffset = int index + int itemIndex + indexOf i0 i1
                in \<lparr>entityId = i1,
                    ref_range = rangeOf document absoluteOffset (absoluteOffset + int (length i1)),
                    ref_inJinja = False\<rparr>))
            (execAll itemPattern listContent 0 0))"

definition findEntityReferences :: "document \<Rightarrow> entity_ref list" where
  "findEntityReferences document =
     (let text = getText document
      in map (entityRefOf document False) (execAll entityIdValuePattern text 0 0)
         @ concat (map (listItemRefs document) (execAll listEntityPattern text 0 0))
         @ map (entityRefOf document True) (execAll statesPattern text 0 0)
         @ map (entityRefOf document True) (execAll isStatePattern text 0 0))"

text \<open>\<^verbatim>\<open>/(?:service|action):\s*([a-z_]+\.[a-z0-9_]+)/gi\<close>\<close>

definition servicePattern :: "string \<Rightarrow> (string \<times> string) list" where
  "servicePattern t =
     [(l @ c @ w @ g1, g1). (l, r1) \<leftarrow> alt (litCI ''service'') (litCI ''action'') t,
                            (c, r2) \<leftarrow> lit '':'' r1,
                            (w, r3) \<leftarrow> star (cls isSpace) r2,
                            (g1, r4) \<leftarrow> entityIdPattern r3]"

definition findServiceReferences :: "document \<Rightarrow> service_ref list" where
  "findServiceReferences document =
     map (\<lambda>(index, m0, g1).
            (let startOffset = int index + indexOf m0 g1
             in \<lparr>service = g1,
                 sref_range = rangeOf document startOffset (startOffset + int (length g1))\<rparr>))
         (execAll servicePattern (getText document) 0 0)"

text \<open>\<^verbatim>\<open>/!include\s+([^\s\n]+)/g\<close>\<close>

definition includePattern :: "string \<Rightarrow> (string \<times> string) list" where
  "includePattern t =
     [(l @ w @ g1, g1). (l, r1) \<leftarrow> lit ''!include'' t,
                        (w, r2) \<leftarrow> plus1 (cls isSpace) r1,
                        (g1, r3) \<leftarrow> plus1 (cls (\<lambda>c. \<not> isSpace c \<and> c \<noteq> CHR 0x0A)) r2]"

definition findIncludeReferences :: "document \<Rightarrow> include_ref list" where
  "findIncludeReferences document =
     map (\<lambda>(index, m0, filePath).
            (let startOffset = int index + indexOf m0 filePath
             in \<lparr>path = filePath,
                 iref_range = rangeOf document startOffset (startOffset + int (length filePath))\<rparr>))
         (execAll includePattern (getText document) 0 0)"

subsection \<open>The live data\<close>

text \<open>
  An entity state of the runtime. The attributes are kept by name, each value by the
  string it prints as; \<^verbatim>\<open>attributes?.name\<close> is \<^verbatim>\<open>undefined\<close> for a name that is missing.
\<close>

record entity_state =
  entity_id :: string
  state :: string
  attributes :: "(string \<times> string) list"
  last_changed :: string

record service_field =
  field_description :: "string option"
  field_required :: bool

text \<open>One service as the runtime's catalog lists it, and one domain of the catalog.\<close>

record service_entry =
  entry_name :: "string option"
  entry_description :: "string option"
  entry_fields :: "(string \<times> service_field) list option"
  entry_target :: bool

record domain_services =
  catalog_domain :: string
  services :: "(string \<times> service_entry) list"

record service_info =
  svc_domain :: string
  svc_service :: string
  fullName :: string
  svc_name :: string
  svc_description :: string
  svc_fields :: "(string \<times> service_field) list"
  target :: bool

text \<open>\<^verbatim>\<open>x || y\<close> on strings that may be missing: the empty string is falsy.\<close>

definition orElse :: "string option \<Rightarrow> string \<Rightarrow> string" where
  "orElse x y = (case x of None \<Rightarrow> y | Some v \<Rightarrow> if v = [] then y else v)"

text \<open>
  The collaborators of the providers: the token of the environment, the outcome of
  awaiting \<^verbatim>\<open>haClient.getStates()\<close>, \<^verbatim>\<open>haClient.getServices()\<close> and
  \<^verbatim>\<open>haClient.renderTemplate(template)\<close> (what \<^verbatim>\<open>getCached\<close> returns, or the error it
  throws), the path functions of the platform, the file system and the YAML parser, which
  answers with the error it throws: its message and, when it has one, the 1-based line
  and column. \<^verbatim>\<open>renderTemplate\<close> answers with the message of the error it throws (\<open>Inl\<close>) or
  with the rendered text.
\<close>

record env =
  SUPERVISOR_TOKEN :: "string option"
  getStates :: "js_error + entity_state list"
  getServices :: "js_error + domain_services list"
  renderTemplate :: "string \<Rightarrow> string + string"
  fileURLToPath :: "string \<Rightarrow> js_error + string"
  dirname :: "string \<Rightarrow> string"
  isAbsolute :: "string \<Rightarrow> bool"
  resolve :: "string \<Rightarrow> string \<Rightarrow> string"
  existsSync :: "string \<Rightarrow> bool"
  parseYaml :: "string \<Rightarrow> (string \<times> (nat \<times> nat) option) option"

text \<open>\<^verbatim>\<open>!SUPERVISOR_TOKEN\<close> holds for a missing and for an empty token.\<close>

definition tokenAvailable :: "env \<Rightarrow> bool" where
  "tokenAvailable e = (case SUPERVISOR_TOKEN e of None \<Rightarrow> False | Some t \<Rightarrow> t \<noteq> [])"

text \<open>\<^verbatim>\<open>getEntityMap\<close>: a later state of the same identifier replaces the earlier one.\<close>

definition getEntityMap :: "env \<Rightarrow> js_error + (string \<rightharpoonup> entity_state)" where
  "getEntityMap e =
     (case getStates e of
        Inl err \<Rightarrow> Inl err
      | Inr states \<Rightarrow> Inr (fold (\<lambda>s m. m(entity_id s \<mapsto> s)) states Map.empty))"

definition getServiceList :: "env \<Rightarrow> js_error + service_info list" where
  "getServiceList e =
     (case getServices e of
        Inl err \<Rightarrow> Inl err
      | Inr catalog \<Rightarrow>
          Inr (concat (map (\<lambda>domainObj.
                 map (\<lambda>(serviceName, serviceInfo).
                        \<lparr>svc_domain = catalog_domain domainObj,
                         svc_service = serviceName,
                         fullName = catalog_domain domainObj @ ''.'' @ serviceName,
                         svc_name = orElse (entry_name serviceInfo) serviceName,
                         svc_description = orElse (entry_description serviceInfo) [],
                         svc_fields = (case entry_fields serviceInfo of None \<Rightarrow> [] | Some f \<Rightarrow> f),
                         target = entry_target serviceInfo\<rparr>)
                     (services domainObj)) catalog)))"

subsection \<open>The diagnostics provider\<close>

datatype severity = SeverityError | SeverityWarning

record diagnostic =
  diag_severity :: severity
  diag_range :: text_range
  message :: string
  source :: string
  code :: string

definition unknownEntityDiagnostic :: "entity_ref \<Rightarrow> diagnostic" where
  "unknownEntityDiagnostic ref =
     \<lparr>diag_severity = SeverityWarning, diag_range = ref_range ref,
      message = ''Unknown entity: '' @ entityId ref, source = ''ha-lsp'',
      code = ''unknown-entity''\<rparr>"

definition unknownServiceDiagnostic :: "service_ref \<Rightarrow> diagnostic" where
  "unknownServiceDiagnostic ref =
     \<lparr>diag_severity = SeverityWarning, diag_range = sref_range ref,
      message = ''Unknown service: '' @ service ref, source = ''ha-lsp'',
      code = ''unknown-service''\<rparr>"

definition includeNotFoundDiagnostic :: "include_ref \<Rightarrow> diagnostic" where
  "includeNotFoundDiagnostic ref =
     \<lparr>diag_severity = SeverityError, diag_range = iref_range ref,
      message = ''Include file not found: '' @ path ref, source = ''ha-lsp'',
      code = ''include-not-found''\<rparr>"

definition yamlSyntaxDiagnostic :: "string \<times> (nat \<times> nat) option \<Rightarrow> diagnostic" where
  "yamlSyntaxDiagnostic yamlError =
     (case yamlError of (msg, linePos) \<Rightarrow>
        \<lparr>diag_severity = SeverityError,
         diag_range =
           (case linePos of
              Some (l, c) \<Rightarrow> \<lparr>start = \<lparr>line = l - 1, character = c - 1\<rparr>,
                               end' = \<lparr>line = l - 1, character = c\<rparr>\<rparr>
            | None \<Rightarrow> \<lparr>start = \<lparr>line = 0, character = 0\<rparr>,
                        end' = \<lparr>line = 0, character = 1\<rparr>\<rparr>),
         message = ''YAML syntax error: '' @ msg, source = ''ha-lsp'',
         code = ''yaml-syntax''\<rparr>)"

text \<open>
  \<^verbatim>\<open>validateDocument\<close>. Without a token it returns at once. An error thrown in the
  outer \<^verbatim>\<open>try\<close> block ends the checks and leaves the diagnostics pushed so far.
\<close>

definition validateDocument :: "env \<Rightarrow> document \<Rightarrow> diagnostic list" where
  "validateDocument e document =
     (if \<not> tokenAvailable e then []
      else
        (let entityRefs = findEntityReferences document in
         case getEntityMap e of
           Inl err \<Rightarrow> []
         | Inr entityMap \<Rightarrow>
        (let d1 = map unknownEntityDiagnostic
                    (filter (\<lambda>ref. entityMap (entityId ref) = None) entityRefs);
             serviceRefs = findServiceReferences document in
         case getServiceList e of
           Inl err \<Rightarrow> d1
         | Inr serviceList \<Rightarrow>
        (let serviceSet = set (map fullName serviceList);
             d2 = d1 @ map unknownServiceDiagnostic
                         (filter (\<lambda>ref. service ref \<notin> serviceSet) serviceRefs);
             includeRefs = findIncludeReferences document in
         case fileURLToPath e (uri document) of
           Inl err \<Rightarrow> d2
         | Inr docPath \<Rightarrow>
        (let docDir = dirname e docPath;
             d3 = d2 @ map includeNotFoundDiagnostic
                         (filter (\<lambda>ref. \<not> existsSync e
                                     (if isAbsolute e (path ref) then path ref
                                      else resolve e docDir (path ref))) includeRefs)
         in case parseYaml e (getText document) of
              None \<Rightarrow> d3
            | Some yamlError \<Rightarrow> d3 @ [yamlSyntaxDiagnostic yamlError])))))"

subsection \<open>The completion provider\<close>



text \<open>\<^verbatim>\<open>parts.join(sep)\<close>\<close>

fun joinWith :: "string \<Rightarrow> string list \<Rightarrow> string" where
  "joinWith sep [] = []"
| "joinWith sep [x] = x"
| "joinWith sep (x # y # ys) = x @ sep @ joinWith sep (y # ys)"

text \<open>\<^verbatim>\<open>parts.filter(Boolean).join("\n")\<close>: the empty strings are dropped.\<close>

definition markdownOf :: "string list \<Rightarrow> string" where
  "markdownOf parts = joinWith [CHR 0x0A] (filter (\<lambda>l. l \<noteq> []) parts)"

definition backtick :: string where
  "backtick = [CHR 0x60]"

text \<open>\<^verbatim>\<open>const [domain] = entityId.split(".")\<close>\<close>

definition domainOf :: "string \<Rightarrow> string" where
  "domainOf s = (case splitOn CHR ''.'' s of [] \<Rightarrow> [] | d # ds \<Rightarrow> d)"

definition attribute :: "entity_state \<Rightarrow> string \<Rightarrow> string option" where
  "attribute s name = map_of (attributes s) name"









subsection \<open>The hover provider\<close>

text \<open>\<^verbatim>\<open>/[a-zA-Z0-9_.]/.test(text[i])\<close>. Past the end \<^verbatim>\<open>text[i]\<close> is \<^verbatim>\<open>undefined\<close>, which
  the test reads as the string "undefined" and accepts.\<close>

definition wordCharAt :: "string \<Rightarrow> nat \<Rightarrow> bool" where
  "wordCharAt text i =
     (if i < length text then isWordChar (text ! i) \<or> text ! i = CHR ''.'' else True)"

text \<open>\<^verbatim>\<open>while (start > 0 && test(text[start - 1])) start--\<close>\<close>

fun wordStart :: "string \<Rightarrow> nat \<Rightarrow> nat" where
  "wordStart text 0 = 0"
| "wordStart text (Suc n) = (if wordCharAt text n then wordStart text n else Suc n)"

text \<open>\<^verbatim>\<open>while (end < text.length && test(text[end])) end++\<close>\<close>

function wordEnd :: "string \<Rightarrow> nat \<Rightarrow> nat" where
  "wordEnd text n = (if n < length text \<and> wordCharAt text n then wordEnd text (Suc n) else n)"
  by pat_completeness auto
termination
  by (relation "measure (\<lambda>(text, n). length text - n)") auto

definition getWordRangeAtPosition :: "document \<Rightarrow> position \<Rightarrow> text_range option" where
  "getWordRangeAtPosition document pos =
     (let text = getText document;
          off = offsetAt document pos;
          wstart = wordStart text off;
          wend = wordEnd text off
      in if wstart = wend then None
         else Some \<lparr>start = positionAt document (int wstart),
                    end' = positionAt document (int wend)\<rparr>)"

text \<open>\<^verbatim>\<open>document.getText(range)\<close>: the text between the offsets of the two positions.\<close>

definition getTextIn :: "document \<Rightarrow> text_range \<Rightarrow> string" where
  "getTextIn document r =
     substring (getText document) (offsetAt document (start r)) (offsetAt document (end' r))"

text \<open>\<^verbatim>\<open>word.match(/^[a-z_]+\.[a-z0-9_]+$/i)\<close>\<close>

definition entityShape :: "string \<Rightarrow> bool" where
  "entityShape word = (sq entityIdPattern eol word \<noteq> [])"

text \<open>\<^verbatim>\<open>lineText.match(/(?:service|action):\s*/)\<close>\<close>

definition serviceKeyMatch :: "string \<Rightarrow> bool" where
  "serviceKeyMatch lineText =
     (searchFrom (sq (alt (lit ''service'') (lit ''action''))
                     (sq (lit '':'') (star (cls isSpace)))) lineText 0 \<noteq> None)"

text \<open>\<^verbatim>\<open>text.substring(0, offset).match(/\{\{[^}]*$/)\<close>\<close>

definition jinjaOpenMatch :: "string \<Rightarrow> bool" where
  "jinjaOpenMatch s =
     (searchFrom (sq (lit ''{{'') (sq (star (cls (\<lambda>c. c \<noteq> CHR ''}''))) eol)) s 0 \<noteq> None)"

text \<open>\<^verbatim>\<open>s.indexOf(pat, from)\<close> and \<^verbatim>\<open>s.lastIndexOf(pat, from)\<close>\<close>

definition indexOfAt :: "string \<Rightarrow> string \<Rightarrow> nat \<Rightarrow> int" where
  "indexOfAt s pat from = indexOfFrom pat (drop from s) (int (min from (length s)))"

definition lastIndexOfAt :: "string \<Rightarrow> string \<Rightarrow> nat \<Rightarrow> int" where
  "lastIndexOfAt s pat from = lastIndexOf (take (from + length pat) s) pat"

definition getEntityHover :: "env \<Rightarrow> string \<Rightarrow> string option" where
  "getEntityHover e entityId' =
     (case getEntityMap e of
        Inl err \<Rightarrow> None
      | Inr entityMap \<Rightarrow>
          (case entityMap entityId' of
             None \<Rightarrow>
               Some (''**Unknown entity:** '' @ backtick @ entityId' @ backtick
                     @ [CHR 0x0A, CHR 0x0A]
                     @ ''This entity does not exist in Home Assistant.'')
           | Some s \<Rightarrow>
               (let friendlyName = orElse (attribute s ''friendly_name'') entityId';
                    attrs = joinWith [CHR 0x0A]
                      (map (\<lambda>(k, v). ''| '' @ k @ '' | '' @ take 50 v
                                      @ (if length v > 50 then ''...'' else []) @ '' |'')
                           (take 10 (filter (\<lambda>(k, v). \<not> startsWith k ''_''
                                                     \<and> k \<noteq> ''friendly_name'')
                                            (attributes s))))
                in Some (markdownOf
                     [''## '' @ friendlyName,
                      [],
                      backtick @ entityId' @ backtick,
                      [],
                      ''**State:** '' @ backtick @ state s @ backtick,
                      [],
                      ''**Domain:** '' @ domainOf entityId',
                      (case attribute s ''device_class'' of
                         None \<Rightarrow> []
                       | Some v \<Rightarrow> if v = [] then [] else ''**Device Class:** '' @ v),
                      (case attribute s ''unit_of_measurement'' of
                         None \<Rightarrow> []
                       | Some v \<Rightarrow> if v = [] then [] else ''**Unit:** '' @ v),
                      [],
                      ''### Attributes'',
                      ''| Attribute | Value |'',
                      ''|-----------|-------|'',
                      attrs,
                      [],
                      ''*Last changed: '' @ last_changed s @ ''*'']))))"

definition getServiceHover :: "env \<Rightarrow> string \<Rightarrow> string option" where
  "getServiceHover e serviceName =
     (case getServiceList e of
        Inl err \<Rightarrow> None
      | Inr serviceList \<Rightarrow>
          (case find (\<lambda>s. fullName s = serviceName) serviceList of
             None \<Rightarrow> Some (''**Unknown service:** '' @ backtick @ serviceName @ backtick)
           | Some s \<Rightarrow>
               (let fieldDocs = joinWith [CHR 0x0A]
                      (map (\<lambda>(name, field).
                              ''- **'' @ name @ ''**''
                              @ (if field_required field then '' *(required)*'' else [])
                              @ '': '' @ orElse (field_description field) ''No description'')
                           (svc_fields s))
                in Some (markdownOf
                     [''## '' @ fullName s,
                      [],
                      svc_description s,
                      [],
                      (if target s then ''**Supports targeting** entities, areas, or devices''
                       else []),
                      [],
                      (if fieldDocs \<noteq> [] then ''### Fields'' else []),
                      fieldDocs]))))"

definition getTemplateHover :: "env \<Rightarrow> string \<Rightarrow> string option" where
  "getTemplateHover e template =
     (case renderTemplate e template of
        Inr result \<Rightarrow>
          Some (joinWith [CHR 0x0A]
                  [''### Template Result'', [], backtick @ backtick @ backtick, result,
                   backtick @ backtick @ backtick])
      | Inl msg \<Rightarrow>
          Some (joinWith [CHR 0x0A]
                  [''### Template Error'', [], backtick @ backtick @ backtick, msg,
                   backtick @ backtick @ backtick]))"

text \<open>
  \<^verbatim>\<open>connection.onHover\<close>, for the document that \<^verbatim>\<open>documents.get\<close> finds (\<open>None\<close>: no such
  document). The answer \<open>None\<close> is \<^verbatim>\<open>null\<close>, otherwise the markdown of the hover. The
  branches stand in the order of the source: the entity test returns first; the service
  test repeats the same pattern after it.
\<close>

definition onHover :: "env \<Rightarrow> document option \<Rightarrow> position \<Rightarrow> js_error + string option" where
  "onHover e doc pos =
     (case doc of
        None \<Rightarrow> Inr None
      | Some document \<Rightarrow>
          (let text = getText document;
               off = offsetAt document pos
           in case getWordRangeAtPosition document pos of
                None \<Rightarrow> Inr None
              | Some wordRange \<Rightarrow>
                  (let word = getTextIn document wordRange;
                       lines = splitOn CHR 0x0A text
                   in if entityShape word then Inr (getEntityHover e word)
                      else if entityShape word \<and> \<not> line pos < length lines then Inl TypeError
                      else if entityShape word \<and> serviceKeyMatch (lines ! (line pos))
                      then Inr (getServiceHover e word)
                      else if jinjaOpenMatch (take off text)
                              \<and> indexOfAt text ''}}'' off \<noteq> -1
                      then Inr (getTemplateHover e
                                  (substring text (nat (lastIndexOfAt text ''{{'' off))
                                     (nat (indexOfAt text ''}}'' off + 2))))
                      else Inr None)))"

subsection \<open>The enclosing-key chain and the trigger type, as the specification words them\<close>

text \<open>
  The specification's chain: walking upward from the line above the cursor, a line that
  matches the key pattern (\<open>keyMatch\<close>) is accepted when its indent is strictly below the
  indent \<open>cur\<close> to stay below, which is then lowered to the indent of the accepted line;
  the chain lists the accepted keys, outermost first. The third argument is the number
  of lines still above.
\<close>

fun spec_chain :: "string list \<Rightarrow> nat \<Rightarrow> nat \<Rightarrow> string list" where
  "spec_chain lines cur 0 = []"
| "spec_chain lines cur (Suc i) =
     (case keyMatch (lines ! i) of
        Some (g1, k) \<Rightarrow>
          if indentOf (lines ! i) < cur
          then spec_chain lines (indentOf (lines ! i)) i @ [k]
          else spec_chain lines cur i
      | None \<Rightarrow> spec_chain lines cur i)"

text \<open>The keys of all lines among the first \<open>n\<close> lines that match the key pattern and
  whose indent is strictly below \<open>cur\<close>, in the order of the document.\<close>

definition shallowerKeys :: "string list \<Rightarrow> nat \<Rightarrow> nat \<Rightarrow> string list" where
  "shallowerKeys lines cur n =
     concat (map (\<lambda>l. case keyMatch l of
                         Some (g1, k) \<Rightarrow> if indentOf l < cur then [k] else []
                       | None \<Rightarrow> [])
                 (take n lines))"

text \<open>The specification's trigger type: the first \<^verbatim>\<open>platform: <word>\<close> scanning forward
  (downward) from line \<open>n\<close>.\<close>

definition spec_triggerType_forward :: "string list \<Rightarrow> nat \<Rightarrow> string option" where
  "spec_triggerType_forward lines n = first (List.map_filter platformMatch (drop n lines))"

text \<open>The first \<^verbatim>\<open>platform: <word>\<close> scanning upward from line \<open>n\<close> to the top of the
  document.\<close>

definition triggerType_upward :: "string list \<Rightarrow> nat \<Rightarrow> string option" where
  "triggerType_upward lines n =
     first (List.map_filter platformMatch (rev (take (Suc n) lines)))"

text \<open>\<open>pat\<close> occurs in \<open>s\<close> at index \<open>i\<close>.\<close>

definition occursAt :: "string \<Rightarrow> string \<Rightarrow> nat \<Rightarrow> bool" where
  "occursAt pat s i = (i \<le> length s \<and> prefix pat (drop i s))"

text \<open>Projections of the analyzer's result, for closed statements.\<close>

definition chainOf :: "js_error + doc_context \<Rightarrow> js_error + string list" where
  "chainOf r = map_sum id parentKeys r"

definition triggerTypeOf :: "js_error + doc_context \<Rightarrow> js_error + string option" where
  "triggerTypeOf r = map_sum id triggerType r"

definition inJinjaOf :: "js_error + doc_context \<Rightarrow> js_error + bool" where
  "inJinjaOf r = map_sum id inJinja r"

text \<open>The example documents.\<close>

definition doc_automation :: document where
  "doc_automation = textDocument ''file:///config/automations.yaml''
     (''automation:'' @ [CHR 0x0A] @ ''  trigger:'' @ [CHR 0x0A] @ ''    platform: time'')"

definition doc_platform_below :: document where
  "doc_platform_below = textDocument ''file:///config/automations.yaml''
     (''trigger:'' @ [CHR 0x0A] @ ''  - at: x'' @ [CHR 0x0A] @ ''    platform: time'')"

definition doc_platform_above :: document where
  "doc_platform_above = textDocument ''file:///config/automations.yaml''
     (''trigger:'' @ [CHR 0x0A] @ ''  - platform: state'' @ [CHR 0x0A] @ ''    entity_id: {{ x'')"

subsection \<open>Notions for the proofs about patterns\<close>

text \<open>A matcher is sound when every way to match splits the input into the matched
  text and the input left.\<close>

definition sound :: "matcher \<Rightarrow> bool" where
  "sound m = (\<forall>s x r. (x, r) \<in> set (m s) \<longrightarrow> s = x @ r)"


text \<open>A runtime with one light, two light services and one switch service; no file
  exists and every text parses.\<close>

definition env_live :: env where
  "env_live =
     \<lparr>SUPERVISOR_TOKEN = Some ''token'',
      getStates = Inr [\<lparr>entity_id = ''light.kitchen'', state = ''on'',
                        attributes = [(''friendly_name'', ''Kitchen'')],
                        last_changed = ''2024-01-01T00:00:00''\<rparr>],
      getServices = Inr
        [\<lparr>catalog_domain = ''light'',
          services =
            [(''turn_on'', \<lparr>entry_name = Some ''Turn on'',
                            entry_description = Some ''Turns on a light'',
                            entry_fields = Some [(''brightness'',
                               \<lparr>field_description = Some ''Brightness'',
                                field_required = False\<rparr>)],
                            entry_target = True\<rparr>),
             (''turn_off'', \<lparr>entry_name = Some ''Turn off'',
                             entry_description = Some ''Turns off a light'',
                             entry_fields = None, entry_target = True\<rparr>)]\<rparr>,
         \<lparr>catalog_domain = ''switch'',
          services =
            [(''toggle'', \<lparr>entry_name = None, entry_description = None,
                           entry_fields = None, entry_target = True\<rparr>)]\<rparr>],
      renderTemplate = (\<lambda>t. Inr ''42''),
      fileURLToPath = (\<lambda>u. Inr (drop 7 u)),
      dirname = (\<lambda>p. ''/config''),
      isAbsolute = (\<lambda>p. startsWith p ''/''),
      resolve = (\<lambda>d p. d @ ''/'' @ p),
      existsSync = (\<lambda>p. False),
      parseYaml = (\<lambda>t. None)\<rparr>"


text \<open>No token in the environment; the YAML parser rejects every text.\<close>

definition env_no_token :: env where
  "env_no_token = env_live
     \<lparr>SUPERVISOR_TOKEN := None,
      parseYaml := (\<lambda>t. Some (''bad indentation'', Some (2, 1)))\<rparr>"



definition doc_include :: document where
  "doc_include = textDocument ''file:///config/a.yaml''
     (''automation: !include missing.yaml'' @ [CHR 0x0A] @ '' - : ['')"

definition doc_service :: document where
  "doc_service = textDocument ''file:///config/a.yaml'' ''service: light.turn_on''"






text \<open>The diagnostics with a given code.\<close>

definition withCode :: "string \<Rightarrow> diagnostic list \<Rightarrow> diagnostic list" where
  "withCode c ds = filter (\<lambda>d. code d = c) ds"


text \<open>The context of the cursor at the end of the third line of \<open>doc_platform_above\<close>.\<close>

definition ctx_platform_above :: doc_context where
  "ctx_platform_above =
     \<lparr>ctx_line = ''    entity_id: {{ x'', lineBeforeCursor = ''    entity_id: {{ x'',
      offset = 48, ctx_position = \<lparr>line = 2, character = 19\<rparr>, inKey = False,
      inValue = True, key = Some ''entity_id'', parentKey = Some ''trigger'',
      parentKeys = [''trigger''], inList = False, inJinja = True,
      triggerType = Some ''state'', actionType = None, domain = None\<rparr>"

text \<open>The context of the cursor at the end of the third line of \<open>doc_automation\<close>.\<close>

definition ctx_automation :: doc_context where
  "ctx_automation =
     \<lparr>ctx_line = ''    platform: time'', lineBeforeCursor = ''    platform: time'',
      offset = 41, ctx_position = \<lparr>line = 2, character = 18\<rparr>, inKey = False,
      inValue = True, key = Some ''platform'', parentKey = Some ''trigger'',
      parentKeys = [''automation'', ''trigger''], inList = False, inJinja = False,
      triggerType = Some ''time'', actionType = None, domain = None\<rparr>"

section \<open>Properties of the cache\<close>

lemma getCached_valid:
  "isCacheValid c k now \<Longrightarrow>
   getCached c k fetcher now =
     \<lparr>returned = Inr (mapGet (cache c) k), client_after = c, fetcher_calls = 0\<rparr>"
  by (simp add: getCached_def)

lemma getCached_fetch_ok:
  "\<not> isCacheValid c k now \<Longrightarrow> fetcher () = (Inr data, t) \<Longrightarrow>
   getCached c k fetcher now =
     \<lparr>returned = Inr data,
      client_after = c\<lparr>cache := (cache c)(k \<mapsto> data),
                       cacheTimestamps := (cacheTimestamps c)(k \<mapsto> t)\<rparr>,
      fetcher_calls = 1\<rparr>"
  by (simp add: getCached_def)

lemma getCached_fetch_fails:
  "\<not> isCacheValid c k now \<Longrightarrow> fetcher () = (Inl e, t) \<Longrightarrow>
   getCached c k fetcher now =
     \<lparr>returned = (if cache c k \<noteq> None then Inr (mapGet (cache c) k) else Inl e),
      client_after = c, fetcher_calls = 1\<rparr>"
  by (simp add: getCached_def)

lemma getCached_fetcher_calls:
  "fetcher_calls (getCached c k fetcher now) = (if isCacheValid c k now then 0 else 1)"
  by (simp add: getCached_def split: prod.splits sum.splits)

text \<open>A \<^verbatim>\<open>get\<close> for one key leaves the entries of all other keys as they are, and after
  an invalidation no entry is valid.\<close>

lemma getCached_other_key:
  "k' \<noteq> k \<Longrightarrow>
   cache (client_after (getCached c k' fetcher now)) k = cache c k
   \<and> cacheTimestamps (client_after (getCached c k' fetcher now)) k = cacheTimestamps c k"
  by (simp add: getCached_def split: prod.splits sum.splits)

lemma getCached_other_key_valid:
  "k' \<noteq> k \<Longrightarrow>
   isCacheValid (client_after (getCached c k' fetcher now)) k t = isCacheValid c k t"
  by (simp add: isCacheValid_def getCached_other_key)

lemma invalidateCache_invalid: "\<not> isCacheValid (invalidateCache c) k now"
  by (simp add: isCacheValid_def invalidateCache_def)

text \<open>
  C1. A \<^verbatim>\<open>get\<close> for a key within the TTL window (\<open>now - t < 60000\<close> milliseconds, that is 60
  seconds) after a \<^verbatim>\<open>get\<close> that called the fetcher and got \<open>data\<close> returns exactly
  \<open>data\<close>, calls its own fetcher not at all and leaves the client as it is. The clock
  reading \<open>t\<close> stored with the entry is any reading but 0, the instant of the epoch itself,
  which \<^verbatim>\<open>isCacheValid\<close> takes for a missing timestamp.
\<close>

theorem C1_get_within_ttl_returns_fetched:
  assumes fetched: "fetcher_calls (getCached c k fetcher now0) = 1"
    and ok: "fetcher () = (Inr data, t)"
    and clock: "t \<noteq> 0"
    and window: "now - t < CACHE_TTL"
  shows "returned (getCached (client_after (getCached c k fetcher now0)) k fetcher' now)
           = Inr data
       \<and> fetcher_calls (getCached (client_after (getCached c k fetcher now0)) k fetcher' now)
           = 0
       \<and> client_after (getCached (client_after (getCached c k fetcher now0)) k fetcher' now)
           = client_after (getCached c k fetcher now0)"
proof -
  let ?c1 = "client_after (getCached c k fetcher now0)"
  from fetched have invalid: "\<not> isCacheValid c k now0"
    by (simp add: getCached_fetcher_calls split: if_splits)
  from invalid ok
  have c1: "?c1 = c\<lparr>cache := (cache c)(k \<mapsto> data),
                     cacheTimestamps := (cacheTimestamps c)(k \<mapsto> t)\<rparr>"
    by (simp add: getCached_fetch_ok)
  have valid: "isCacheValid ?c1 k now"
    using clock window by (simp add: c1 isCacheValid_def)
  have "mapGet (cache ?c1) k = data"
    by (simp add: c1 mapGet_def)
  with getCached_valid [OF valid, of fetcher'] show ?thesis
    by simp
qed

theorem C1_witness:
  "returned (getCached (client_after (getCached \<lparr>cache = Map.empty, cacheTimestamps = Map.empty\<rparr>
        ''states'' (\<lambda>_. (Inr (Val (7::nat)), 1000)) 1000)) ''states''
        (\<lambda>_. (Inl (Error ''down''), 2000)) 2000) = Inr (Val 7)
   \<and> fetcher_calls (getCached (client_after (getCached \<lparr>cache = Map.empty, cacheTimestamps = Map.empty\<rparr>
        ''states'' (\<lambda>_. (Inr (Val (7::nat)), 1000)) 1000)) ''states''
        (\<lambda>_. (Inl (Error ''down''), 2000)) 2000) = 0"
proof -
  have a: "fetcher_calls (getCached \<lparr>cache = Map.empty, cacheTimestamps = Map.empty\<rparr>
        ''states'' (\<lambda>_. (Inr (Val (7::nat)), 1000)) 1000) = 1"
    by (simp add: getCached_def isCacheValid_def)
  have b: "(\<lambda>_::unit. (Inr (Val (7::nat)) :: js_error + nat jsval, 1000::int)) () = (Inr (Val 7), 1000)"
    by simp
  have c: "(1000::int) \<noteq> 0" by simp
  have d: "(2000::int) - 1000 < CACHE_TTL" by (simp add: CACHE_TTL_def)
  from C1_get_within_ttl_returns_fetched [OF a b c d] show ?thesis
    by blast
qed

text \<open>
  C2. When the entry of a key is missing or expired and the fetcher fails, \<^verbatim>\<open>get\<close>
  returns the value cached before if there is one, and throws the error of the fetcher
  if there is none: it throws if and only if the cache holds no value for the k.
\<close>

theorem C2_stale_on_error:
  assumes invalid: "\<not> isCacheValid c k now"
    and fails: "fetcher () = (Inl e, t)"
  shows "returned (getCached c k fetcher now)
           = (case cache c k of Some v \<Rightarrow> Inr v | None \<Rightarrow> Inl e)
       \<and> ((\<exists>x. returned (getCached c k fetcher now) = Inl x) \<longleftrightarrow> cache c k = None)"
  using invalid fails
  by (auto simp: getCached_fetch_fails mapGet_def split: option.splits)

theorem C2_witness:
  "returned (getCached \<lparr>cache = [''states'' \<mapsto> Val (7::nat)], cacheTimestamps = [''states'' \<mapsto> 1000]\<rparr>
        ''states'' (\<lambda>_. (Inl (Error ''down''), 70000)) 70000) = Inr (Val 7)
   \<and> returned (getCached \<lparr>cache = [''states'' \<mapsto> Val (7::nat)], cacheTimestamps = [''states'' \<mapsto> 1000]\<rparr>
        ''areas'' (\<lambda>_. (Inl (Error ''down''), 70000)) 70000) = Inl (Error ''down'')"
proof -
  let ?c = "\<lparr>cache = [''states'' \<mapsto> Val (7::nat)], cacheTimestamps = [''states'' \<mapsto> 1000]\<rparr>"
  let ?f = "\<lambda>_::unit. (Inl (Error ''down'') :: js_error + nat jsval, 70000::int)"
  have a: "\<not> isCacheValid ?c ''states'' 70000"
    by (simp add: isCacheValid_def CACHE_TTL_def)
  have a': "\<not> isCacheValid ?c ''areas'' 70000"
    by (simp add: isCacheValid_def)
  have b: "?f () = (Inl (Error ''down''), 70000)" by simp
  from C2_stale_on_error [OF a b] C2_stale_on_error [OF a' b] show ?thesis
    by simp
qed

text \<open>
  C10. When the entry of a key is missing or expired and the fetcher fails, \<^verbatim>\<open>get\<close>
  leaves the client unchanged: the cached value and the timestamp of the k (and of
  every other k) are what they were. The entry therefore stays expired: at every later
  clock reading it is still not valid, and a \<^verbatim>\<open>get\<close> for the k calls its fetcher again.
\<close>

theorem C10_failed_refresh_keeps_state:
  assumes invalid: "\<not> isCacheValid c k now"
    and fails: "fetcher () = (Inl e, t)"
    and later: "now \<le> now'"
  shows "client_after (getCached c k fetcher now) = c
       \<and> \<not> isCacheValid (client_after (getCached c k fetcher now)) k now'
       \<and> fetcher_calls (getCached (client_after (getCached c k fetcher now)) k fetcher' now') = 1"
proof -
  have same: "client_after (getCached c k fetcher now) = c"
    using invalid fails by (simp add: getCached_fetch_fails)
  have still: "\<not> isCacheValid c k now'"
    using invalid later by (auto simp: isCacheValid_def split: option.splits)
  show ?thesis
    using same still by (simp add: getCached_fetcher_calls)
qed

theorem C10_witness:
  "client_after (getCached \<lparr>cache = [''states'' \<mapsto> Val (7::nat)], cacheTimestamps = [''states'' \<mapsto> 1000]\<rparr>
        ''states'' (\<lambda>_. (Inl (Error ''down''), 70000)) 70000)
     = \<lparr>cache = [''states'' \<mapsto> Val (7::nat)], cacheTimestamps = [''states'' \<mapsto> 1000]\<rparr>
   \<and> fetcher_calls (getCached (client_after (getCached
        \<lparr>cache = [''states'' \<mapsto> Val (7::nat)], cacheTimestamps = [''states'' \<mapsto> 1000]\<rparr>
        ''states'' (\<lambda>_. (Inl (Error ''down''), 70000)) 70000)) ''states''
        (\<lambda>_. (Inr (Val 8), 70001)) 70001) = 1"
proof -
  let ?c = "\<lparr>cache = [''states'' \<mapsto> Val (7::nat)], cacheTimestamps = [''states'' \<mapsto> 1000]\<rparr>"
  let ?f = "\<lambda>_::unit. (Inl (Error ''down'') :: js_error + nat jsval, 70000::int)"
  have a: "\<not> isCacheValid ?c ''states'' 70000"
    by (simp add: isCacheValid_def CACHE_TTL_def)
  have b: "?f () = (Inl (Error ''down''), 70000)" by simp
  have c: "(70000::int) \<le> 70001" by simp
  from C10_failed_refresh_keeps_state [OF a b c] show ?thesis
    by blast
qed

section \<open>Properties of the matchers\<close>

lemma soundD: "sound m \<Longrightarrow> (x, r) \<in> set (m s) \<Longrightarrow> s = x @ r"
  by (simp add: sound_def)

lemma sound_cls: "sound (cls p)"
  by (auto simp: sound_def cls_def split: list.splits if_splits)

lemma sound_sq: "sound a \<Longrightarrow> sound b \<Longrightarrow> sound (sq a b)"
  unfolding sound_def sq_def by fastforce

lemma sound_alt: "sound a \<Longrightarrow> sound b \<Longrightarrow> sound (alt a b)"
  by (auto simp: sound_def alt_def)

lemma sound_lit: "sound (lit l)"
proof (induction l)
  case Nil
  show ?case by (simp add: sound_def)
next
  case (Cons c cs)
  show ?case
    unfolding lit.simps litCI.simps by (intro sound_sq sound_cls Cons.IH)
qed


lemma sound_starN: "sound a \<Longrightarrow> sound (starN n a)"
proof (induction n)
  case 0
  then show ?case by (simp add: sound_def)
next
  case (Suc n)
  show ?case
    unfolding sound_def
  proof (intro allI impI)
    fix s x r
    assume "(x, r) \<in> set (starN (Suc n) a s)"
    then consider "(x, r) = ([], s)"
      | x1 r1 y where "(x1, r1) \<in> set (a s)" "(y, r) \<in> set (starN n a r1)" "x = x1 @ y"
      by (auto split: if_splits)
    then show "s = x @ r"
    proof cases
      case 1
      then show ?thesis by simp
    next
      case 2
      from soundD [OF Suc.prems 2(1)] soundD [OF Suc.IH [OF Suc.prems] 2(2)] 2(3)
      show ?thesis by simp
    qed
  qed
qed

lemma sound_star: "sound a \<Longrightarrow> sound (star a)"
proof -
  assume a: "sound a"
  show ?thesis
    unfolding sound_def
  proof (intro allI impI)
    fix s x r
    assume "(x, r) \<in> set (star a s)"
    then have "(x, r) \<in> set (starN (length s) a s)" by (simp add: star_def)
    then show "s = x @ r" by (rule soundD [OF sound_starN [OF a]])
  qed
qed

lemma sound_plus1: "sound a \<Longrightarrow> sound (plus1 a)"
  by (simp add: plus1_def sound_sq sound_star)


lemma first_Some_in_set: "first xs = Some x \<Longrightarrow> x \<in> set xs"
  by (cases xs) (auto simp: first_def)

lemma first_map_append: "first xs = Some x \<Longrightarrow> first (map f xs @ ys) = Some (f x)"
  by (cases xs) (auto simp: first_def)

lemma starN_cls_first:
  "length s \<le> n \<Longrightarrow> first (starN n (cls p) s) = Some (takeWhile p s, dropWhile p s)"
proof (induction n arbitrary: s)
  case 0
  then show ?case by (simp add: first_def)
next
  case (Suc n)
  show ?case
  proof (cases s)
    case Nil
    then show ?thesis by (simp add: cls_def first_def)
  next
    case (Cons c cs)
    show ?thesis
    proof (cases "p c")
      case True
      from Suc.prems Cons have "length cs \<le> n" by simp
      from first_map_append [OF Suc.IH [OF this], of "\<lambda>(y, r'). ([c] @ y, r')" "[([], s)]"]
      show ?thesis using True Cons by (simp add: cls_def)
    next
      case False
      with Cons show ?thesis by (simp add: cls_def first_def)
    qed
  qed
qed

lemma indentOf_takeWhile: "indentOf s = length (takeWhile isSpace s)"
  by (simp add: indentOf_def star_def starN_cls_first)

lemma length_takeWhile_take:
  "length (takeWhile p (take n xs)) = min n (length (takeWhile p xs))"
proof (induction xs arbitrary: n)
  case Nil
  then show ?case by simp
next
  case (Cons x xs)
  then show ?case by (cases n) simp_all
qed

lemma indentOf_take: "indentOf (take n l) = min n (indentOf l)"
  by (simp add: indentOf_takeWhile length_takeWhile_take)

lemma starN_cls_chars:
  "(x, r) \<in> set (starN n (cls p) s) \<Longrightarrow> \<forall>c \<in> set x. p c"
proof (induction n arbitrary: s x r)
  case 0
  then show ?case by simp
next
  case (Suc n)
  from Suc.prems consider "(x, r) = ([], s)"
    | x1 r1 y where "(x1, r1) \<in> set (cls p s)" "(y, r) \<in> set (starN n (cls p) r1)" "x = x1 @ y"
    by (auto split: if_splits)
  then show ?case
  proof cases
    case 1
    then show ?thesis by simp
  next
    case 2
    from 2(1) have "\<forall>c \<in> set x1. p c"
      by (auto simp: cls_def split: list.splits if_splits)
    with Suc.IH [OF 2(2)] 2(3) show ?thesis by auto
  qed
qed

lemma star_cls_chars: "(x, r) \<in> set (star (cls p) s) \<Longrightarrow> \<forall>c \<in> set x. p c"
  unfolding star_def by (rule starN_cls_chars)

lemma plus1_cls_chars:
  assumes "(x, r) \<in> set (plus1 (cls p) s)"
  shows "x \<noteq> [] \<and> (\<forall>c \<in> set x. p c)"
proof -
  from assms obtain x1 r1 y where
    h: "(x1, r1) \<in> set (cls p s)" "(y, r) \<in> set (star (cls p) r1)" "x = x1 @ y"
    by (auto simp: plus1_def sq_def)
  from h(1) have "x1 \<noteq> [] \<and> (\<forall>c \<in> set x1. p c)"
    by (auto simp: cls_def split: list.splits if_splits)
  with star_cls_chars [OF h(2)] h(3) show ?thesis by auto
qed

lemma lit_text: "(x, r) \<in> set (lit l s) \<Longrightarrow> x = l"
proof (induction l arbitrary: s x r)
  case Nil
  then show ?case by simp
next
  case (Cons c cs)
  from Cons.prems obtain x1 r1 y where
    h: "(x1, r1) \<in> set (cls (\<lambda>x. x = c) s)" "(y, r) \<in> set (lit cs r1)" "x = x1 @ y"
    by (auto simp: sq_def)
  from h(1) have "x1 = [c]" by (auto simp: cls_def split: list.splits if_splits)
  with Cons.IH [OF h(2)] h(3) show ?case by simp
qed


text \<open>What \<^verbatim>\<open>/^(\s*)([a-z_]+)\s*:/i\<close> matches: the line starts with its white space, a key
  of letters and underscores, white space and a colon; anything may follow.\<close>

lemma keyMatch_shape:
  assumes "keyMatch l = Some (g1, k)"
  shows "\<exists>w rest. l = g1 @ k @ w @ '':'' @ rest
           \<and> (\<forall>c \<in> set g1. isSpace c) \<and> k \<noteq> [] \<and> (\<forall>c \<in> set k. isLetterUnderscore c)
           \<and> (\<forall>c \<in> set w. isSpace c)"
proof -
  from first_Some_in_set [OF assms [unfolded keyMatch_def]]
  have "\<exists>r1 r2 w r3 c r4. (g1, r1) \<in> set (star (cls isSpace) l)
          \<and> (k, r2) \<in> set (plus1 (cls isLetterUnderscore) r1)
          \<and> (w, r3) \<in> set (star (cls isSpace) r2) \<and> (c, r4) \<in> set (lit '':'' r3)"
    by (auto simp del: lit.simps) blast
  then obtain r1 r2 w r3 c r4 where
    h: "(g1, r1) \<in> set (star (cls isSpace) l)"
       "(k, r2) \<in> set (plus1 (cls isLetterUnderscore) r1)"
       "(w, r3) \<in> set (star (cls isSpace) r2)" "(c, r4) \<in> set (lit '':'' r3)"
    by blast
  from soundD [OF sound_star [OF sound_cls] h(1)] soundD [OF sound_plus1 [OF sound_cls] h(2)]
    soundD [OF sound_star [OF sound_cls] h(3)] soundD [OF sound_lit h(4)] lit_text [OF h(4)]
  have "l = g1 @ k @ w @ '':'' @ r4" by simp
  with star_cls_chars [OF h(1)] plus1_cls_chars [OF h(2)] star_cls_chars [OF h(3)]
  show ?thesis by blast
qed



section \<open>Properties of the context analyzer\<close>

subsection \<open>The loops\<close>

lemma parentLoop_keys:
  "n \<le> length lines \<Longrightarrow>
   \<exists>pk'. parentLoop lines cur n (acc, pk) = Inr (shallowerKeys lines cur n @ acc, pk')"
proof (induction n arbitrary: acc pk)
  case 0
  then show ?case by (simp add: shallowerKeys_def)
next
  case (Suc i)
  then have i: "i < length lines" by simp
  then have tk: "take (Suc i) lines = take i lines @ [lines ! i]"
    by (simp add: take_Suc_conv_app_nth)
  show ?case
  proof (cases "keyMatch (lines ! i)")
    case None
    with Suc.IH [of acc pk] i tk show ?thesis
      by (simp add: shallowerKeys_def)
  next
    case (Some m)
    obtain g1 k where m: "m = (g1, k)" by (cases m)
    show ?thesis
    proof (cases "indentOf (lines ! i) < cur")
      case True
      from Suc.IH [of "k # acc" "case pk of None \<Rightarrow> Some k | Some k' \<Rightarrow> Some k'"] i
      obtain pk' where "parentLoop lines cur i (k # acc, case pk of None \<Rightarrow> Some k | Some k' \<Rightarrow> Some k')
          = Inr (shallowerKeys lines cur i @ k # acc, pk')"
        by auto
      with Some m True i tk show ?thesis
        by (simp add: shallowerKeys_def)
    next
      case False
      with Suc.IH [of acc pk] Some m i tk show ?thesis
        by (simp add: shallowerKeys_def)
    qed
  qed
qed

lemma parentLoop_error:
  "length lines < n \<Longrightarrow> parentLoop lines cur n st = Inl TypeError"
  by (cases n; cases st) auto

lemma spec_chain_subseq:
  "n \<le> length lines \<Longrightarrow> cur' \<le> cur \<Longrightarrow>
   subseq (spec_chain lines cur' n) (shallowerKeys lines cur n)"
proof (induction n arbitrary: cur')
  case 0
  then show ?case by (simp add: shallowerKeys_def)
next
  case (Suc i)
  then have i: "i < length lines" by simp
  then have tk: "take (Suc i) lines = take i lines @ [lines ! i]"
    by (simp add: take_Suc_conv_app_nth)
  have split: "shallowerKeys lines cur (Suc i) = shallowerKeys lines cur i @
      (case keyMatch (lines ! i) of Some (g1, k) \<Rightarrow> if indentOf (lines ! i) < cur then [k] else [] | None \<Rightarrow> [])"
    by (simp add: shallowerKeys_def tk)
  show ?case
  proof (cases "keyMatch (lines ! i)")
    case None
    with Suc.IH [of cur'] Suc.prems i split show ?thesis by simp
  next
    case (Some m)
    obtain g1 k where m: "m = (g1, k)" by (cases m)
    show ?thesis
    proof (cases "indentOf (lines ! i) < cur'")
      case True
      then have le: "indentOf (lines ! i) \<le> cur" and lt: "indentOf (lines ! i) < cur"
        using Suc.prems by auto
      from Suc.IH [OF _ le] i have "subseq (spec_chain lines (indentOf (lines ! i)) i) (shallowerKeys lines cur i)"
        by simp
      then have "subseq (spec_chain lines (indentOf (lines ! i)) i @ [k]) (shallowerKeys lines cur i @ [k])"
        by (rule list_emb_append_mono) simp
      with Some m True lt split show ?thesis by simp
    next
      case False
      from Suc.IH [OF _ Suc.prems(2)] i have a: "subseq (spec_chain lines cur' i) (shallowerKeys lines cur i)"
        by simp
      have "subseq (spec_chain lines cur' i) (shallowerKeys lines cur (Suc i))"
        unfolding split using a by (rule list_emb_prefix)
      with Some m False show ?thesis by simp
    qed
  qed
qed

lemma lastIndexOfFrom_none:
  "pat \<noteq> [] \<Longrightarrow> (\<forall>j. \<not> occursAt pat s j) \<Longrightarrow> lastIndexOfFrom pat s i found = found"
proof (induction s arbitrary: i found)
  case Nil
  then show ?case by simp
next
  case (Cons c cs)
  from Cons.prems(2) have "\<not> occursAt pat (c # cs) 0" by blast
  then have np: "\<not> prefix pat (c # cs)" by (simp add: occursAt_def)
  have "\<forall>j. \<not> occursAt pat cs j"
  proof
    fix j
    from Cons.prems(2) have "\<not> occursAt pat (c # cs) (Suc j)" by blast
    then show "\<not> occursAt pat cs j" by (simp add: occursAt_def)
  qed
  with Cons.IH [OF Cons.prems(1)] np show ?case by simp
qed

lemma lastIndexOfFrom_last:
  "pat \<noteq> [] \<Longrightarrow> occursAt pat s j \<Longrightarrow> (\<forall>j'. occursAt pat s j' \<longrightarrow> j' \<le> j) \<Longrightarrow>
   lastIndexOfFrom pat s i found = i + int j"
proof (induction s arbitrary: i found j)
  case Nil
  then show ?case by (simp add: occursAt_def)
next
  case (Cons c cs)
  show ?case
  proof (cases j)
    case 0
    with Cons.prems(2) have p: "prefix pat (c # cs)" by (simp add: occursAt_def)
    have "\<forall>j'. \<not> occursAt pat cs j'"
    proof (rule allI, rule notI)
      fix j' assume "occursAt pat cs j'"
      then have "occursAt pat (c # cs) (Suc j')" by (simp add: occursAt_def)
      with Cons.prems(3) 0 show False by auto
    qed
    from lastIndexOfFrom_none [OF Cons.prems(1) this] p 0 show ?thesis by simp
  next
    case (Suc m)
    with Cons.prems(2) have occ: "occursAt pat cs m" by (simp add: occursAt_def)
    have mx: "\<forall>j'. occursAt pat cs j' \<longrightarrow> j' \<le> m"
    proof (intro allI impI)
      fix j' assume "occursAt pat cs j'"
      then have "occursAt pat (c # cs) (Suc j')" by (simp add: occursAt_def)
      with Cons.prems(3) Suc show "j' \<le> m" by auto
    qed
    from Cons.IH [OF Cons.prems(1) occ mx] Suc show ?thesis by simp
  qed
qed

lemma occursAt_bound: "pat \<noteq> [] \<Longrightarrow> occursAt pat s j \<Longrightarrow> j < length s"
  by (cases "j = length s") (auto simp: occursAt_def)

lemma occursAt_has_last:
  assumes "pat \<noteq> []" "occursAt pat s j"
  shows "\<exists>m. occursAt pat s m \<and> (\<forall>j'. occursAt pat s j' \<longrightarrow> j' \<le> m)"
proof -
  let ?S = "{j. occursAt pat s j}"
  have fin: "finite ?S"
    by (rule finite_subset [of _ "{..length s}"]) (auto simp: occursAt_def)
  have ne: "?S \<noteq> {}" using assms(2) by auto
  have "Max ?S \<in> ?S" using fin ne by (rule Max_in)
  moreover have "\<forall>j'. occursAt pat s j' \<longrightarrow> j' \<le> Max ?S"
    using fin by (auto intro: Max_ge)
  ultimately show ?thesis by blast
qed

lemma lastIndexOf_gt_iff:
  assumes a: "a \<noteq> []" and b: "b \<noteq> []"
  shows "lastIndexOf s a > lastIndexOf s b \<longleftrightarrow>
         (\<exists>i. occursAt a s i \<and> (\<forall>j. occursAt b s j \<longrightarrow> j < i))"
proof (cases "\<exists>i. occursAt a s i")
  case False
  then have "lastIndexOf s a = -1"
    using lastIndexOfFrom_none [OF a, of s 0 "-1"] by (simp add: lastIndexOf_def)
  moreover have "lastIndexOf s b \<ge> -1"
  proof (cases "\<exists>j. occursAt b s j")
    case True
    then obtain j where "occursAt b s j" by blast
    from occursAt_has_last [OF b this] obtain m where
      "occursAt b s m" "\<forall>j'. occursAt b s j' \<longrightarrow> j' \<le> m" by blast
    from lastIndexOfFrom_last [OF b this, of 0 "-1"] show ?thesis
      by (simp add: lastIndexOf_def)
  next
    case False
    then show ?thesis using lastIndexOfFrom_none [OF b, of s 0 "-1"] by (simp add: lastIndexOf_def)
  qed
  ultimately show ?thesis using False by auto
next
  case True
  then obtain i0 where "occursAt a s i0" by blast
  from occursAt_has_last [OF a this] obtain m where
    m: "occursAt a s m" "\<forall>j'. occursAt a s j' \<longrightarrow> j' \<le> m" by blast
  from lastIndexOfFrom_last [OF a m, of 0 "-1"] have la: "lastIndexOf s a = int m"
    by (simp add: lastIndexOf_def)
  show ?thesis
  proof (cases "\<exists>j. occursAt b s j")
    case False
    then have "lastIndexOf s b = -1"
      using lastIndexOfFrom_none [OF b, of s 0 "-1"] by (simp add: lastIndexOf_def)
    with la False m show ?thesis by auto
  next
    case True
    then obtain j0 where "occursAt b s j0" by blast
    from occursAt_has_last [OF b this] obtain n where
      n: "occursAt b s n" "\<forall>j'. occursAt b s j' \<longrightarrow> j' \<le> n" by blast
    from lastIndexOfFrom_last [OF b n, of 0 "-1"] have lb: "lastIndexOf s b = int n"
      by (simp add: lastIndexOf_def)
    show ?thesis
    proof
      assume "lastIndexOf s b < lastIndexOf s a"
      with la lb have "n < m" by simp
      with n(2) have "\<forall>j. occursAt b s j \<longrightarrow> j < m" by auto
      with m(1) show "\<exists>i. occursAt a s i \<and> (\<forall>j. occursAt b s j \<longrightarrow> j < i)" by blast
    next
      assume "\<exists>i. occursAt a s i \<and> (\<forall>j. occursAt b s j \<longrightarrow> j < i)"
      then obtain i where i: "occursAt a s i" "\<forall>j. occursAt b s j \<longrightarrow> j < i" by blast
      from i(2) n(1) have "n < i" by blast
      moreover from m(2) i(1) have "i \<le> m" by blast
      ultimately show "lastIndexOf s b < lastIndexOf s a" using la lb by simp
    qed
  qed
qed

lemma triggerLoop_upward:
  "n \<le> length lines \<Longrightarrow>
   triggerLoop lines n = Inr (first (List.map_filter platformMatch (rev (take n lines))))"
proof (induction n)
  case 0
  then show ?case by (simp add: first_def List.map_filter_simps)
next
  case (Suc i)
  then have i: "i < length lines" by simp
  then have tk: "take (Suc i) lines = take i lines @ [lines ! i]"
    by (simp add: take_Suc_conv_app_nth)
  show ?case
    using Suc.IH i by (cases "platformMatch (lines ! i)") (simp_all add: tk List.map_filter_simps first_def)
qed

lemma triggerLoop_error:
  "length lines < n \<Longrightarrow> triggerLoop lines n = Inl TypeError"
  by (cases n) auto

lemma analyzeContext_Inr:
  assumes "analyzeContext document pos = Inr ctx"
  shows "line pos \<le> length (splitOn CHR 0x0A (getText document))"
    and "lineBeforeCursor ctx =
           take (character pos)
             (if line pos < length (splitOn CHR 0x0A (getText document))
              then splitOn CHR 0x0A (getText document) ! (line pos) else [])"
    and "parentKeys ctx =
           shallowerKeys (splitOn CHR 0x0A (getText document))
             (indentOf (lineBeforeCursor ctx)) (line pos)"
    and "inJinja ctx \<longleftrightarrow>
           lastIndexOf (lineBeforeCursor ctx) ''{{'' > lastIndexOf (lineBeforeCursor ctx) ''}}''"
    and "triggerType ctx =
           (if ''trigger'' \<in> set (parentKeys ctx) \<or> ''triggers'' \<in> set (parentKeys ctx)
            then triggerType_upward (splitOn CHR 0x0A (getText document)) (line pos)
            else None)"
proof -
  let ?lines = "splitOn CHR 0x0A (getText document)"
  let ?l = "if line pos < length ?lines then ?lines ! (line pos) else []"
  let ?b = "take (character pos) ?l"
  show len: "line pos \<le> length ?lines"
  proof (rule ccontr)
    assume "\<not> line pos \<le> length ?lines"
    then have "parentLoop ?lines (indentOf ?b) (line pos) ([], None) = Inl TypeError"
      by (simp add: parentLoop_error)
    with assms show False by (simp add: analyzeContext_def Let_def)
  qed
  from parentLoop_keys [OF len, of "indentOf ?b" "[]" None]
  obtain pk where pl: "parentLoop ?lines (indentOf ?b) (line pos) ([], None)
      = Inr (shallowerKeys ?lines (indentOf ?b) (line pos), pk)"
    by auto
  let ?ks = "shallowerKeys ?lines (indentOf ?b) (line pos)"
  let ?tr = "''trigger'' \<in> set ?ks \<or> ''triggers'' \<in> set ?ks"
  from assms pl show lb: "lineBeforeCursor ctx = ?b"
    by (auto simp: analyzeContext_def Let_def split: sum.splits if_splits)
  from assms pl show pks: "parentKeys ctx = shallowerKeys ?lines (indentOf (lineBeforeCursor ctx)) (line pos)"
    unfolding lb by (auto simp: analyzeContext_def Let_def split: sum.splits if_splits)
  from assms pl show "inJinja ctx \<longleftrightarrow>
           lastIndexOf (lineBeforeCursor ctx) ''{{'' > lastIndexOf (lineBeforeCursor ctx) ''}}''"
    unfolding lb by (auto simp: analyzeContext_def Let_def split: sum.splits if_splits)
  have tl: "?tr \<Longrightarrow> Suc (line pos) \<le> length ?lines"
  proof (rule ccontr)
    assume tr: ?tr and "\<not> Suc (line pos) \<le> length ?lines"
    then have "triggerLoop ?lines (Suc (line pos)) = Inl TypeError"
      by (simp add: triggerLoop_error)
    with assms pl tr show False by (simp add: analyzeContext_def Let_def)
  qed
  show "triggerType ctx =
           (if ''trigger'' \<in> set (parentKeys ctx) \<or> ''triggers'' \<in> set (parentKeys ctx)
            then triggerType_upward ?lines (line pos) else None)"
  proof (cases ?tr)
    case True
    from triggerLoop_upward [OF tl [OF True]]
    have "triggerLoop ?lines (Suc (line pos)) = Inr (triggerType_upward ?lines (line pos))"
      by (simp add: triggerType_upward_def)
    with assms pl True show ?thesis
      unfolding pks lb by (auto simp: analyzeContext_def Let_def split: sum.splits if_splits)
  next
    case False
    with assms pl show ?thesis
      unfolding pks lb by (auto simp: analyzeContext_def Let_def split: sum.splits if_splits)
  qed
qed

lemma analyzeContext_doc_automation:
  "analyzeContext doc_automation \<lparr>line = 2, character = 18\<rparr> = Inr ctx_automation"
  by code_simp

lemma analyzeContext_doc_platform_above:
  "analyzeContext doc_platform_above \<lparr>line = 2, character = 19\<rparr> = Inr ctx_platform_above"
  by code_simp

lemma doc_automation_chain:
  "chainOf (analyzeContext doc_automation \<lparr>line = 2, character = 18\<rparr>)
     = Inr [''automation'', ''trigger'']"
  by (simp add: analyzeContext_doc_automation chainOf_def ctx_automation_def)

lemma occursAt_in_set: "occursAt (c # cs) s j \<Longrightarrow> c \<in> set s"
proof -
  assume "occursAt (c # cs) s j"
  then obtain zs where "drop j s = (c # cs) @ zs"
    by (auto simp: occursAt_def prefix_def)
  then have "c \<in> set (drop j s)" by simp
  then show ?thesis by (rule in_set_dropD)
qed

subsection \<open>The enclosing-key chain\<close>

text \<open>
  The example of C3 as the claim states it fails: for the document \<^verbatim>\<open>automation:\<close> /
  \<^verbatim>\<open>  trigger:\<close> / \<^verbatim>\<open>    platform: time\<close> with the cursor at the end of the third line the
  chain is \<open>[automation, trigger]\<close>, not \<open>[trigger]\<close>: both lines above the cursor match
  the key pattern with an indent below 4.
\<close>

theorem C3_counterexample:
  "chainOf (analyzeContext doc_automation \<lparr>line = 2, character = 18\<rparr>)
     = Inr [''automation'', ''trigger'']
   \<and> chainOf (analyzeContext doc_automation \<lparr>line = 2, character = 18\<rparr>)
     \<noteq> Inr [''trigger'']"
  by (simp add: doc_automation_chain)

lemma keyMatch_with_value: "keyMatch ''  alias: Morning'' = Some (''  '', ''alias'')"
  by code_simp

lemma doc_automation_chain_in_indent:
  "chainOf (analyzeContext doc_automation \<lparr>line = 2, character = 2\<rparr>) = Inr [''automation'']"
  "chainOf (analyzeContext doc_automation \<lparr>line = 2, character = 0\<rparr>) = Inr []"
  by code_simp+

text \<open>
  C3, amended. A key line is a line that matches \<^verbatim>\<open>/^(\s*)([a-z_]+)\s*:/i\<close>: white space,
  a key of letters and underscores, white space and a colon, whatever follows the colon
  (\<^verbatim>\<open>  alias: Morning\<close> is a key line with the key \<open>alias\<close>). The indent of a line is the
  number of its leading white-space characters. Let \<open>cur\<close> be the indent of the text
  before the cursor: the indent of the cursor line, or the cursor column when the cursor
  stands inside the leading white space. Whenever the analyzer returns a context, its
  enclosing-key chain lies between two lists, as a subsequence in the order of the
  document (outermost first): it contains the keys of the key lines met walking upward
  whose indent is strictly below \<open>cur\<close> and below the indent of every line accepted
  before; and every entry is the key of a key line above the cursor whose indent is
  strictly below \<open>cur\<close>. For the document \<^verbatim>\<open>automation:\<close> / \<^verbatim>\<open>  trigger:\<close> /
  \<^verbatim>\<open>    platform: time\<close> with the cursor at the end of the third line the chain is
  \<open>[automation, trigger]\<close>; with the cursor at column 2 of that line it is
  \<open>[automation]\<close>, and at column 0 it is empty.
\<close>

theorem C3_chain_between:
  assumes "analyzeContext document pos = Inr ctx"
  shows "subseq (spec_chain (splitOn CHR 0x0A (getText document))
                   (indentOf (lineBeforeCursor ctx)) (line pos))
                (parentKeys ctx)
       \<and> subseq (parentKeys ctx)
                (shallowerKeys (splitOn CHR 0x0A (getText document))
                   (indentOf (lineBeforeCursor ctx)) (line pos))
       \<and> indentOf (lineBeforeCursor ctx)
           = min (character pos)
               (indentOf (if line pos < length (splitOn CHR 0x0A (getText document))
                          then splitOn CHR 0x0A (getText document) ! (line pos) else []))
       \<and> (\<forall>l. indentOf l = length (takeWhile isSpace l))
       \<and> keyMatch ''  alias: Morning'' = Some (''  '', ''alias'')
       \<and> chainOf (analyzeContext doc_automation \<lparr>line = 2, character = 18\<rparr>)
           = Inr [''automation'', ''trigger'']
       \<and> chainOf (analyzeContext doc_automation \<lparr>line = 2, character = 2\<rparr>)
           = Inr [''automation'']
       \<and> chainOf (analyzeContext doc_automation \<lparr>line = 2, character = 0\<rparr>) = Inr []"
proof -
  note f = analyzeContext_Inr [OF assms]
  have between: "subseq (spec_chain (splitOn CHR 0x0A (getText document))
                   (indentOf (lineBeforeCursor ctx)) (line pos))
               (shallowerKeys (splitOn CHR 0x0A (getText document))
                   (indentOf (lineBeforeCursor ctx)) (line pos))"
    using f(1) by (rule spec_chain_subseq) simp
  have cur: "indentOf (lineBeforeCursor ctx)
           = min (character pos)
               (indentOf (if line pos < length (splitOn CHR 0x0A (getText document))
                          then splitOn CHR 0x0A (getText document) ! (line pos) else []))"
    unfolding f(2) by (rule indentOf_take)
  have ind: "\<forall>l. indentOf l = length (takeWhile isSpace l)"
    by (simp add: indentOf_takeWhile)
  from between f(3) have "subseq (spec_chain (splitOn CHR 0x0A (getText document))
                   (indentOf (lineBeforeCursor ctx)) (line pos)) (parentKeys ctx)"
    and "subseq (parentKeys ctx) (shallowerKeys (splitOn CHR 0x0A (getText document))
                   (indentOf (lineBeforeCursor ctx)) (line pos))"
    by simp_all
  with cur ind keyMatch_with_value doc_automation_chain doc_automation_chain_in_indent
  show ?thesis
    by (intro conjI)
qed

theorem C3_witness:
  "subseq (spec_chain (splitOn CHR 0x0A (getText doc_automation)) 4 2)
          [''automation'', ''trigger'']
   \<and> subseq [''automation'', ''trigger'']
          (shallowerKeys (splitOn CHR 0x0A (getText doc_automation)) 4 2)"
proof -
  have i: "indentOf ''    platform: time'' = 4" by code_simp
  have c: "parentKeys ctx_automation = [''automation'', ''trigger'']"
    "lineBeforeCursor ctx_automation = ''    platform: time''"
    by (simp_all add: ctx_automation_def)
  note th = C3_chain_between [OF analyzeContext_doc_automation]
  from th [THEN conjunct1] th [THEN conjunct2, THEN conjunct1] show ?thesis
    by (simp add: i c)
qed

subsection \<open>The trigger type\<close>

text \<open>
  C6 as the claim states it fails: in the document \<^verbatim>\<open>trigger:\<close> / \<^verbatim>\<open>  - at: x\<close> /
  \<^verbatim>\<open>    platform: time\<close> with the cursor at the end of the second line the chain is
  \<open>[trigger]\<close> and the nearest \<^verbatim>\<open>platform:\<close> line scanning forward from the cursor line is
  the third, with the word \<open>time\<close>; the analyzer records no trigger type.
\<close>

theorem C6_counterexample:
  "triggerTypeOf (analyzeContext doc_platform_below \<lparr>line = 1, character = 9\<rparr>) = Inr None
   \<and> chainOf (analyzeContext doc_platform_below \<lparr>line = 1, character = 9\<rparr>) = Inr [''trigger'']
   \<and> spec_triggerType_forward (splitOn CHR 0x0A (getText doc_platform_below)) 1 = Some ''time''"
  by code_simp

text \<open>
  C6, amended. For every document and cursor position whose enclosing-key chain
  contains \<open>trigger\<close> or \<open>triggers\<close>, the trigger type that the analyzer records is the
  word of the nearest line matching \<^verbatim>\<open>platform: <word>\<close> scanning upward from the cursor
  line (the cursor line first) to the top of the document, and none when no such line
  exists.
\<close>

theorem C6_trigger_type_upward:
  assumes "analyzeContext document pos = Inr ctx"
    and "''trigger'' \<in> set (parentKeys ctx) \<or> ''triggers'' \<in> set (parentKeys ctx)"
  shows "triggerType ctx = triggerType_upward (splitOn CHR 0x0A (getText document)) (line pos)"
  using analyzeContext_Inr(5) [OF assms(1)] assms(2) by simp

theorem C6_witness:
  "triggerType_upward (splitOn CHR 0x0A (getText doc_platform_above)) 2 = Some ''state''
   \<and> triggerTypeOf (analyzeContext doc_platform_above \<lparr>line = 2, character = 19\<rparr>)
       = Inr (Some ''state'')"
proof -
  have t: "''trigger'' \<in> set (parentKeys ctx_platform_above)
           \<or> ''triggers'' \<in> set (parentKeys ctx_platform_above)"
    by (simp add: ctx_platform_above_def)
  from C6_trigger_type_upward [OF analyzeContext_doc_platform_above t] show ?thesis
    by (simp add: analyzeContext_doc_platform_above triggerTypeOf_def ctx_platform_above_def)
qed

subsection \<open>Template expressions\<close>

text \<open>
  C8. For the text before the cursor (the cursor line cut at the cursor column),
  \<^verbatim>\<open>inJinja\<close> is true if and only if \<^verbatim>\<open>{{\<close> occurs in it at an index after every occurrence
  of \<^verbatim>\<open>}}\<close>, that is, the last \<^verbatim>\<open>{{\<close> lies after the last \<^verbatim>\<open>}}\<close>. In particular it
  is false when every \<^verbatim>\<open>{{\<close> of the prefix is followed by a \<^verbatim>\<open>}}\<close> (the cursor is outside
  every marker pair), and true when some \<^verbatim>\<open>{{\<close> has no \<^verbatim>\<open>}}\<close> after it.
\<close>

theorem C8_inJinja_last_markers:
  assumes "analyzeContext document pos = Inr ctx"
  shows "(inJinja ctx \<longleftrightarrow>
           (\<exists>i. occursAt ''{{'' (lineBeforeCursor ctx) i
               \<and> (\<forall>j. occursAt ''}}'' (lineBeforeCursor ctx) j \<longrightarrow> j < i)))
       \<and> ((\<forall>i. occursAt ''{{'' (lineBeforeCursor ctx) i
                \<longrightarrow> (\<exists>j>i. occursAt ''}}'' (lineBeforeCursor ctx) j))
            \<longrightarrow> \<not> inJinja ctx)
       \<and> ((\<exists>i. occursAt ''{{'' (lineBeforeCursor ctx) i
                \<and> (\<forall>j>i. \<not> occursAt ''}}'' (lineBeforeCursor ctx) j))
            \<longrightarrow> inJinja ctx)
       \<and> lineBeforeCursor ctx =
           take (character pos)
             (if line pos < length (splitOn CHR 0x0A (getText document))
              then splitOn CHR 0x0A (getText document) ! (line pos) else [])"
proof -
  let ?p = "lineBeforeCursor ctx"
  have iff: "inJinja ctx \<longleftrightarrow>
           (\<exists>i. occursAt ''{{'' ?p i \<and> (\<forall>j. occursAt ''}}'' ?p j \<longrightarrow> j < i))"
    using analyzeContext_Inr(4) [OF assms] lastIndexOf_gt_iff [of "''{{''" "''}}''" ?p]
    by simp
  have out: "(\<forall>i. occursAt ''{{'' ?p i \<longrightarrow> (\<exists>j>i. occursAt ''}}'' ?p j)) \<longrightarrow> \<not> inJinja ctx"
    unfolding iff by (metis less_asym)
  have "\<And>i j. occursAt ''{{'' ?p i \<Longrightarrow> occursAt ''}}'' ?p j \<Longrightarrow> i \<noteq> j"
    by (auto simp: occursAt_def prefix_def)
  then have inn: "(\<exists>i. occursAt ''{{'' ?p i \<and> (\<forall>j>i. \<not> occursAt ''}}'' ?p j)) \<longrightarrow> inJinja ctx"
    unfolding iff by (metis linorder_neqE_nat)
  from iff out inn analyzeContext_Inr(2) [OF assms] show ?thesis
    by blast
qed

theorem C8_witness:
  "inJinjaOf (analyzeContext doc_platform_above \<lparr>line = 2, character = 19\<rparr>) = Inr True
   \<and> occursAt ''{{'' ''    entity_id: {{ x'' 15"
proof -
  have op: "occursAt ''{{'' ''    entity_id: {{ x'' 15"
    by (simp add: occursAt_def)
  have cl: "\<forall>j>15. \<not> occursAt ''}}'' ''    entity_id: {{ x'' j"
    using occursAt_in_set [of "CHR ''}''" "''}''" "''    entity_id: {{ x''"] by auto
  have lb: "lineBeforeCursor ctx_platform_above = ''    entity_id: {{ x''"
    by (simp add: ctx_platform_above_def)
  from C8_inJinja_last_markers [OF analyzeContext_doc_platform_above] op cl
  have "inJinja ctx_platform_above"
    unfolding lb by blast
  with op show ?thesis
    by (simp add: analyzeContext_doc_platform_above inJinjaOf_def)
qed

section \<open>Properties of the providers\<close>

subsection \<open>Patterns and the ranges of references\<close>

lemma comprehension3:
  "(m, g) \<in> set [(f x y z, h x y z). (x, r1) \<leftarrow> A t, (y, r2) \<leftarrow> B r1, (z, r3) \<leftarrow> C r2]
   \<Longrightarrow> \<exists>x r1 y r2 z r3. (x, r1) \<in> set (A t) \<and> (y, r2) \<in> set (B r1) \<and> (z, r3) \<in> set (C r2)
         \<and> m = f x y z \<and> g = h x y z"
  by auto blast

lemma comprehension4:
  "(m, g) \<in> set [(f x y z u, h x y z u). (x, r1) \<leftarrow> A t, (y, r2) \<leftarrow> B r1, (z, r3) \<leftarrow> C r2,
        (u, r4) \<leftarrow> D r3]
   \<Longrightarrow> \<exists>x r1 y r2 z r3 u r4. (x, r1) \<in> set (A t) \<and> (y, r2) \<in> set (B r1) \<and> (z, r3) \<in> set (C r2)
         \<and> (u, r4) \<in> set (D r3) \<and> m = f x y z u \<and> g = h x y z u"
  by auto blast

lemma comprehension5:
  "(m, g) \<in> set [(f x y z u v, h x y z u v). (x, r1) \<leftarrow> A t, (y, r2) \<leftarrow> B r1, (z, r3) \<leftarrow> C r2,
        (u, r4) \<leftarrow> D r3, (v, r5) \<leftarrow> E r4]
   \<Longrightarrow> \<exists>x r1 y r2 z r3 u r4 v r5. (x, r1) \<in> set (A t) \<and> (y, r2) \<in> set (B r1) \<and> (z, r3) \<in> set (C r2)
         \<and> (u, r4) \<in> set (D r3) \<and> (v, r5) \<in> set (E r4) \<and> m = f x y z u v \<and> g = h x y z u v"
  by auto blast
















subsection \<open>Diagnostics\<close>


















text \<open>
  C4 as the claim states it fails: without a token, a document with an include of a
  missing file, which the parser rejects, gets no diagnostic at all.
\<close>

theorem C4_counterexample:
  "validateDocument env_no_token doc_include = []
   \<and> map path (findIncludeReferences doc_include) = [''missing.yaml'']
   \<and> \<not> existsSync env_no_token (resolve env_no_token ''/config'' ''missing.yaml'')
   \<and> parseYaml env_no_token (getText doc_include) = Some (''bad indentation'', Some (2, 1))"
  by code_simp


text \<open>
  C4, amended. When no live-data token is available (the token is missing or empty),
  validation skips the unknown-entity, the unknown-service and the include-path check:
  it yields no \<^verbatim>\<open>unknown-entity\<close>, no \<^verbatim>\<open>unknown-service\<close> and no \<^verbatim>\<open>include-not-found\<close>
  diagnostic, also for an include of a missing file.
\<close>

theorem C4_no_token_no_reference_diagnostics:
  assumes "\<not> tokenAvailable e"
  shows "withCode ''unknown-entity'' (validateDocument e document) = []
       \<and> withCode ''unknown-service'' (validateDocument e document) = []
       \<and> withCode ''include-not-found'' (validateDocument e document) = []"
  using assms by (simp add: validateDocument_def withCode_def)

theorem C4_witness:
  "withCode ''include-not-found'' (validateDocument env_no_token doc_include) = []
   \<and> map path (findIncludeReferences doc_include) = [''missing.yaml'']"
proof -
  have t: "\<not> tokenAvailable env_no_token" by code_simp
  have r: "map path (findIncludeReferences doc_include) = [''missing.yaml'']" by code_simp
  from C4_no_token_no_reference_diagnostics [OF t, of doc_include] r show ?thesis
    by simp
qed


subsection \<open>Hover\<close>

lemma onHover_entity_shape:
  assumes "getWordRangeAtPosition document pos = Some wordRange"
    and "entityShape (getTextIn document wordRange)"
  shows "onHover e (Some document) pos = Inr (getEntityHover e (getTextIn document wordRange))"
  using assms by (simp add: onHover_def Let_def)


text \<open>
  C5 fails on the code. In the document \<^verbatim>\<open>service: light.turn_on\<close> with the cursor in the
  token, the token has the shape \<^verbatim>\<open>domain.name\<close> and the line holds the key \<^verbatim>\<open>service:\<close>,
  and the catalog knows the service; the hover is the answer of the entity snapshot, the
  notice of an unknown entity, and not the description of the service.
\<close>

theorem C5_service_token_resolved_as_entity:
  "onHover env_live (Some doc_service) \<lparr>line = 0, character = 12\<rparr>
     = Inr (getEntityHover env_live ''light.turn_on'')
   \<and> getEntityHover env_live ''light.turn_on''
     = Some (''**Unknown entity:** '' @ backtick @ ''light.turn_on'' @ backtick
             @ [CHR 0x0A, CHR 0x0A] @ ''This entity does not exist in Home Assistant.'')
   \<and> getServiceHover env_live ''light.turn_on''
     = Some (''## light.turn_on'' @ [CHR 0x0A] @ ''Turns on a light'' @ [CHR 0x0A]
             @ ''**Supports targeting** entities, areas, or devices'' @ [CHR 0x0A]
             @ ''### Fields'' @ [CHR 0x0A] @ ''- **brightness**: Brightness'')
   \<and> entityShape ''light.turn_on''
   \<and> serviceKeyMatch (getText doc_service)"
  by code_simp


subsection \<open>Completion\<close>










end
